theory Spec2Isabelle
  imports Main "HOL-Library.Word"
begin

section \<open>Data model of the chat client (main.c)\<close>

text \<open>
  C strings are modelled by their bytes before the terminating NUL, so a \<open>char *\<close> that
  may be \<open>NULL\<close> is a \<open>string option\<close>.  Pointers to messages are indices into the message
  list (\<open>add_message\<close> only ever appends at its end), and a pointer that may be \<open>NULL\<close> is a
  \<open>nat option\<close>.  The linked list of queued updates between \<open>head\<close> and \<open>tail\<close> is the list
  of its nodes in link order.  Except in the section on concurrent producers, the mutexes
  are not part of the state: every function is one critical section or runs on the render
  thread.  Allocation is taken to succeed
  except for the \<open>realloc\<close> of the accumulation buffer, whose outcome is an explicit
  argument of \<open>streaming_callback\<close>.
\<close>

datatype message_type_t = MSG_USER | MSG_ASSISTANT | MSG_SYSTEM | MSG_TOOL_CALL | MSG_TOOL_RESPONSE

record tool_execution_t =
  tool_name :: "string option"
  parameters :: "string option"
  response :: "string option"

text \<open>A rendered line is its text and its colour attribute.\<close>

type_synonym rendered_line_t = "string \<times> nat"

text \<open>
  Of \<open>message_t\<close> the fields \<open>tool_name\<close>, \<open>timestamp\<close> and \<open>line_count\<close> are left out: no
  function modelled here reads them.
\<close>

record message_t =
  msg_type :: message_type_t
  content :: "string option"
  is_streaming :: bool
  tool_executions :: "tool_execution_t list"
  lines :: "rendered_line_t list"
  needs_rerender :: bool

record message_update_t =
  target_message :: "nat option"
  new_content :: "string option"
  upd_is_streaming :: bool
  new_tool_executions :: "tool_execution_t list"
  process_markdown :: bool

type_synonym ai_stream_id_t = "8 word"

definition AI_INVALID_ID :: ai_stream_id_t where
  "AI_INVALID_ID = 0"

record streaming_context_t =
  active :: bool
  stream_id :: ai_stream_id_t
  accumulated_text :: "string option"
  accumulated_length :: nat
  waiting_for_stream :: bool

record app_t =
  messages :: "message_t list"
  current_streaming :: "nat option"
  update_queue :: "message_update_t list"
  streaming :: streaming_context_t

text \<open>\<open>init_app\<close>: the state is zeroed, then the queue and the streaming context are set up.\<close>

definition init_app :: app_t where
  "init_app =
     \<lparr>messages = [], current_streaming = None, update_queue = [],
      streaming = \<lparr>active = False, stream_id = AI_INVALID_ID, accumulated_text = None,
                   accumulated_length = 0, waiting_for_stream = False\<rparr>\<rparr>"

section \<open>The update queue\<close>

fun clone_tool_executions :: "tool_execution_t list \<Rightarrow> tool_execution_t list" where
  "clone_tool_executions [] = []"
| "clone_tool_executions (current # rest) =
     \<lparr>tool_name = tool_name current, parameters = parameters current,
      response = response current\<rparr> # clone_tool_executions rest"

definition create_message_update ::
  "nat option \<Rightarrow> string option \<Rightarrow> bool \<Rightarrow> tool_execution_t list \<Rightarrow> message_update_t" where
  "create_message_update msg content' is_streaming' tool_executions' =
     \<lparr>target_message = msg, new_content = content', upd_is_streaming = is_streaming',
      new_tool_executions = clone_tool_executions tool_executions',
      process_markdown = (content' \<noteq> None)\<rparr>"

text \<open>
  \<open>queue_message_update\<close>: with a tail the node is linked behind it and becomes the tail,
  without one it becomes head and tail.
\<close>

definition queue_message_update ::
  "nat option \<Rightarrow> string option \<Rightarrow> bool \<Rightarrow> tool_execution_t list \<Rightarrow> app_t \<Rightarrow> app_t" where
  "queue_message_update msg content' is_streaming' tool_executions' app =
     (let update = create_message_update msg content' is_streaming' tool_executions'
      in if update_queue app \<noteq> []
         then app\<lparr>update_queue := update_queue app @ [update]\<rparr>
         else app\<lparr>update_queue := [update]\<rparr>)"

section \<open>The streaming session\<close>

text \<open>
  \<open>add_message\<close> appends a fresh message.  Its scrolling side effect and the message counter
  are not modelled.
\<close>

definition add_message :: "message_type_t \<Rightarrow> string \<Rightarrow> app_t \<Rightarrow> app_t" where
  "add_message type' content' app =
     app\<lparr>messages := messages app @
        [\<lparr>msg_type = type', content = Some content', is_streaming = False,
          tool_executions = [], lines = [], needs_rerender = True\<rparr>]\<rparr>"

text \<open>
  The buffer after \<open>memcpy (accumulated_text + old_len, chunk, chunk_len)\<close> and the write of
  the terminator at \<open>new_len\<close>, read as a C string: the first \<open>old_len\<close> bytes of the old text
  followed by the chunk.  A buffer that is \<open>NULL\<close> has no old bytes.
\<close>

definition buffer_bytes :: "string option \<Rightarrow> string" where
  "buffer_bytes t = (case t of None \<Rightarrow> [] | Some s \<Rightarrow> s)"

text \<open>
  \<open>streaming_callback\<close>.  The first argument says whether \<open>realloc\<close> returned a buffer; the
  second is the chunk, \<open>None\<close> for the terminating \<open>NULL\<close>.  The context and user data
  arguments of the C function are ignored by it.
\<close>

definition streaming_callback :: "bool \<Rightarrow> string option \<Rightarrow> app_t \<Rightarrow> app_t" where
  "streaming_callback realloc_ok chunk app =
     (case chunk of
        None \<Rightarrow>
          (let app1 = app\<lparr>streaming := (streaming app)
                        \<lparr>active := False, stream_id := AI_INVALID_ID,
                         waiting_for_stream := False\<rparr>\<rparr>;
               app2 = (if current_streaming app1 \<noteq> None
                          \<and> accumulated_text (streaming app1) \<noteq> None
                       then queue_message_update (current_streaming app1)
                              (accumulated_text (streaming app1)) False [] app1
                       else app1)
           in app2\<lparr>streaming := (streaming app2)
                      \<lparr>accumulated_text := None, accumulated_length := 0\<rparr>\<rparr>)
      | Some c \<Rightarrow>
          (let app1 = (if waiting_for_stream (streaming app)
                       then app\<lparr>streaming := (streaming app)\<lparr>waiting_for_stream := False\<rparr>\<rparr>
                       else app);
               chunk_len = length c;
               old_len = accumulated_length (streaming app1);
               new_len = old_len + chunk_len
           in if realloc_ok
              then
                (let new_text = take old_len (buffer_bytes (accumulated_text (streaming app1))) @ c;
                     app2 = app1\<lparr>streaming := (streaming app1)
                              \<lparr>accumulated_text := Some new_text,
                               accumulated_length := new_len\<rparr>\<rparr>
                 in if current_streaming app2 \<noteq> None
                    then queue_message_update (current_streaming app2)
                           (accumulated_text (streaming app2)) True [] app2
                    else app2)
              else app1))"

text \<open>
  \<open>start_streaming_response\<close>.  The argument \<open>sid\<close> is what the generation collaborator
  returns as stream identifier.  On failure \<open>show_error_message\<close> adds system messages whose
  text comes from the collaborator; \<open>err\<close> is the list of these texts.
\<close>

definition start_streaming_response :: "ai_stream_id_t \<Rightarrow> string list \<Rightarrow> app_t \<Rightarrow> app_t" where
  "start_streaming_response sid err app =
     (let app1 = app\<lparr>streaming := (streaming app)
                   \<lparr>active := True, stream_id := AI_INVALID_ID, waiting_for_stream := True,
                    accumulated_text := Some [], accumulated_length := 0\<rparr>\<rparr>;
          app2 = add_message MSG_ASSISTANT [] app1;
          msg = (if messages app2 = [] then None else Some (length (messages app2) - 1));
          app3 = app2\<lparr>current_streaming := msg\<rparr>;
          app4 = (case msg of
                    None \<Rightarrow> app3
                  | Some m \<Rightarrow> app3\<lparr>messages := (messages app3)
                       [m := (messages app3 ! m)\<lparr>is_streaming := True, needs_rerender := True\<rparr>]\<rparr>)
      in if sid = AI_INVALID_ID
         then
           (let app5 = app4\<lparr>streaming := (streaming app4)
                         \<lparr>active := False, waiting_for_stream := False\<rparr>\<rparr>;
                app6 = (if current_streaming app5 \<noteq> None
                        then queue_message_update (current_streaming app5)
                               (Some (CHR 0xE2 # CHR 0x97 # CHR 0x8F # '' Error: Failed to start generation''))
                               False [] app5
                        else app5)
            in fold (add_message MSG_SYSTEM) err app6)
         else app4\<lparr>streaming := (streaming app4)\<lparr>stream_id := sid\<rparr>\<rparr>)"

text \<open>
  The branch of \<open>handle_input\<close> taken when streaming is active and the key is ESC.  When a
  stream identifier is stored, \<open>ai_cancel_stream\<close> is called and one system message is
  added: \<open>note\<close> is its text (the cancellation notice or the error description).  The local
  state is then reset whatever the collaborator answered.
\<close>

definition handle_input_ESC :: "string \<Rightarrow> app_t \<Rightarrow> app_t" where
  "handle_input_ESC note app =
     (let app1 = (if stream_id (streaming app) \<noteq> AI_INVALID_ID
                  then add_message MSG_SYSTEM note app else app);
          app2 = app1\<lparr>streaming := (streaming app1)
                   \<lparr>active := False, stream_id := AI_INVALID_ID, waiting_for_stream := False,
                    accumulated_text := None, accumulated_length := 0\<rparr>\<rparr>
      in case current_streaming app2 of
           None \<Rightarrow> app2
         | Some m \<Rightarrow> app2\<lparr>messages := (messages app2)
              [m := (messages app2 ! m)\<lparr>is_streaming := False, needs_rerender := True\<rparr>]\<rparr>)"

text \<open>Delivering a sequence of callbacks, each with its allocation outcome.\<close>

fun deliver :: "(bool \<times> string option) list \<Rightarrow> app_t \<Rightarrow> app_t" where
  "deliver [] app = app"
| "deliver ((ok, chunk) # rest) app = deliver rest (streaming_callback ok chunk app)"

text \<open>Delivering text chunks whose reallocations all succeed.\<close>

definition deliver_chunks :: "string list \<Rightarrow> app_t \<Rightarrow> app_t" where
  "deliver_chunks cs app = deliver (map (\<lambda>c. (True, Some c)) cs) app"

text \<open>
  A session used as concrete input below: started with stream identifier 1 from the
  initial state, with the chunk \<open>Hel\<close> delivered.
\<close>

definition demo_session :: app_t where
  "demo_session = deliver_chunks [''Hel''] (start_streaming_response 1 [] init_app)"

section \<open>Applying queued updates\<close>

text \<open>
  \<open>process_markdown_to_ansi\<close> runs the markdown parser, which is not part of these sources:
  it is the parameter \<open>md\<close>, \<open>None\<close> when it returns \<open>NULL\<close>.  \<open>render_markdown_lines\<close> frees
  the cached lines of the message, rebuilds them from the message, the rendered text and
  the animation state, and clears the dirty flag; how the lines are laid out is the
  parameter \<open>layout\<close>.
\<close>

definition render_markdown_lines ::
  "(message_t \<Rightarrow> string \<Rightarrow> rendered_line_t list) \<Rightarrow> message_t \<Rightarrow> string \<Rightarrow> message_t" where
  "render_markdown_lines layout msg ansi_content =
     msg\<lparr>lines := layout msg ansi_content, needs_rerender := False\<rparr>"

text \<open>The body of the loop of \<open>process_message_updates\<close> for an update with a target.\<close>

definition apply_update ::
  "(string \<Rightarrow> string option) \<Rightarrow> (message_t \<Rightarrow> string \<Rightarrow> rendered_line_t list) \<Rightarrow>
     message_update_t \<Rightarrow> message_t \<Rightarrow> message_t" where
  "apply_update md layout current target =
     (let t1 = (case new_content current of
                  Some c \<Rightarrow> target\<lparr>content := Some c\<rparr>
                | None \<Rightarrow> target);
          t2 = t1\<lparr>is_streaming := upd_is_streaming current\<rparr>;
          t3 = (if new_tool_executions current \<noteq> []
                then t2\<lparr>tool_executions := clone_tool_executions (new_tool_executions current)\<rparr>
                else t2)
      in case new_content current of
           Some c \<Rightarrow>
             (if process_markdown current
              then (case md c of
                      Some rendered_markdown \<Rightarrow> render_markdown_lines layout t3 rendered_markdown
                    | None \<Rightarrow> t3\<lparr>needs_rerender := True\<rparr>)
              else t3\<lparr>needs_rerender := True\<rparr>)
         | None \<Rightarrow> t3\<lparr>needs_rerender := True\<rparr>)"

text \<open>
  The loop over the detached list, from its head along the \<open>next\<close> links.  An update whose
  target is \<open>NULL\<close> is only freed.
\<close>

fun apply_updates ::
  "(string \<Rightarrow> string option) \<Rightarrow> (message_t \<Rightarrow> string \<Rightarrow> rendered_line_t list) \<Rightarrow>
     message_update_t list \<Rightarrow> message_t list \<Rightarrow> message_t list" where
  "apply_updates md layout [] msgs = msgs"
| "apply_updates md layout (current # next) msgs =
     apply_updates md layout next
       (case target_message current of
          None \<Rightarrow> msgs
        | Some p \<Rightarrow> msgs[p := apply_update md layout current (msgs ! p)])"

text \<open>
  The first part of \<open>process_message_updates\<close>, between locking and unlocking the queue
  mutex: the list is taken and head and tail are cleared.
\<close>

definition detach_updates :: "app_t \<Rightarrow> message_update_t list \<times> app_t" where
  "detach_updates app = (update_queue app, app\<lparr>update_queue := []\<rparr>)"

definition process_message_updates ::
  "(string \<Rightarrow> string option) \<Rightarrow> (message_t \<Rightarrow> string \<Rightarrow> rendered_line_t list) \<Rightarrow>
     app_t \<Rightarrow> app_t" where
  "process_message_updates md layout app =
     (case detach_updates app of
        (current, app1) \<Rightarrow> app1\<lparr>messages := apply_updates md layout current (messages app1)\<rparr>)"

text \<open>
  A store with one streaming assistant message and three queued updates for it: text,
  then a tool execution without text, then the final text with the streaming flag cleared.
\<close>

definition demo_queue :: app_t where
  "demo_queue =
     queue_message_update (Some 0) (Some ''Hello'') False []
       (queue_message_update (Some 0) None True
          [\<lparr>tool_name = Some ''ls'', parameters = Some ''{}'', response = None\<rparr>]
          (queue_message_update (Some 0) (Some ''Hel'') True []
             (start_streaming_response 1 [] init_app)))"

section \<open>Line wrapping (main.c)\<close>

text \<open>
  \<open>tb_utf8_char_to_unicode\<close> belongs to the terminal backend, which is not part of these
  sources.  The functions below take the decoder as a parameter: applied to the bytes from
  the pointer to the end of the string it returns the codepoint and the byte length, a
  length \<open>\<le> 0\<close> meaning that nothing was decoded.  Pointers into the text are offsets from
  its start; \<open>text_end\<close> is the length of the text.
\<close>

type_synonym utf8_decoder = "string \<Rightarrow> nat \<times> int"

definition is_word_boundary :: "nat \<Rightarrow> bool" where
  "is_word_boundary codepoint \<longleftrightarrow>
     codepoint = of_char (CHR '' '') \<or> codepoint = of_char (CHR 0x09) \<or>
     codepoint = of_char (CHR 0x0A) \<or> codepoint = of_char (CHR 0x0D) \<or>
     codepoint = of_char (CHR ''.'') \<or> codepoint = of_char (CHR '','') \<or>
     codepoint = of_char (CHR '';'') \<or> codepoint = of_char (CHR '':'') \<or>
     codepoint = of_char (CHR ''!'') \<or> codepoint = of_char (CHR ''?'') \<or>
     codepoint = of_char (CHR ''-'') \<or> codepoint = of_char (CHR ''_'') \<or>
     codepoint = of_char (CHR ''('') \<or> codepoint = of_char (CHR '')'') \<or>
     codepoint = of_char (CHR ''['') \<or> codepoint = of_char (CHR '']'') \<or>
     codepoint = of_char (CHR ''{'') \<or> codepoint = of_char (CHR ''}'') \<or>
     codepoint = of_char (CHR 0x22) \<or> codepoint = of_char (CHR 0x27) \<or>
     codepoint = of_char (CHR ''/'') \<or> codepoint = of_char (CHR 0x5C) \<or>
     codepoint = of_char (CHR ''|'')"

text \<open>
  The inner loop of \<open>wrap_text_to_lines\<close>: it scans at most \<open>max_width\<close> characters of the
  current line and remembers the position behind the last word boundary.  A byte that does
  not decode counts as one character.
\<close>

function scan_line ::
  "utf8_decoder \<Rightarrow> string \<Rightarrow> int \<Rightarrow> nat \<Rightarrow> nat option \<Rightarrow> int \<Rightarrow> nat \<times> nat option \<times> int" where
  "scan_line dec text max_width scan_ptr last_break chars_count =
     (if scan_ptr < length text \<and> text ! scan_ptr \<noteq> CHR 0x0A \<and> chars_count < max_width
      then (case dec (drop scan_ptr text) of
              (codepoint, byte_len) \<Rightarrow>
                if byte_len \<le> 0
                then scan_line dec text max_width (scan_ptr + 1) last_break (chars_count + 1)
                else scan_line dec text max_width (scan_ptr + nat byte_len)
                       (if is_word_boundary codepoint then Some (scan_ptr + nat byte_len)
                        else last_break)
                       (chars_count + 1))
      else (scan_ptr, last_break, chars_count))"
  by pat_completeness auto
termination
  by (relation "measure (\<lambda>(dec, tx, max_width, scan_ptr, last_break, chars_count).
                   length tx - scan_ptr)") auto

declare scan_line.simps [simp del]

text \<open>The loop that skips blanks and tabs behind a soft break.\<close>

definition skip_blanks :: "string \<Rightarrow> nat \<Rightarrow> nat" where
  "skip_blanks text ptr =
     ptr + length (takeWhile (\<lambda>c. c = CHR '' '' \<or> c = CHR 0x09) (drop ptr text))"

text \<open>
  One turn of the outer loop at a position that holds no newline: the line that is emitted
  and the position where the next line starts.
\<close>

definition wrap_line :: "utf8_decoder \<Rightarrow> string \<Rightarrow> int \<Rightarrow> nat \<Rightarrow> string \<times> nat" where
  "wrap_line dec text max_width ptr =
     (let line_start = ptr in
      case scan_line dec text max_width ptr None 0 of
        (scan_ptr, last_break, chars_count) \<Rightarrow>
          (let (line_end, ptr') =
                 (if chars_count < max_width \<or> length text \<le> scan_ptr
                       \<or> text ! scan_ptr = CHR 0x0A
                  then (scan_ptr, scan_ptr)
                  else if (case last_break of
                             None \<Rightarrow> False
                           | Some lb \<Rightarrow> line_start < lb
                                        \<and> max_width div 3 \<le> int (lb - line_start))
                  then (the last_break, skip_blanks text (the last_break))
                  else if scan_ptr \<le> line_start
                  then (let byte_len = snd (dec (drop line_start text));
                            byte_len = (if byte_len \<le> 0 then 1 else byte_len)
                        in (line_start + nat byte_len, line_start + nat byte_len))
                  else (scan_ptr, scan_ptr));
               line_len = line_end - line_start
           in (if 0 < line_len then take line_len (drop line_start text) else [], ptr')))"

text \<open>Every turn of the outer loop moves the pointer forward: the loop terminates.\<close>

lemma scan_line_progress:
  "scan_line dec tx max_width p lb c = (p', lb', c') \<Longrightarrow>
     p \<le> p' \<and> (p < length tx \<and> tx ! p \<noteq> CHR 0x0A \<and> c < max_width \<longrightarrow> p < p')"
proof (induction dec tx max_width p lb c rule: scan_line.induct)
  case (1 dec tx max_width scan_ptr last_break chars_count)
  show ?case
  proof (cases "scan_ptr < length tx \<and> tx ! scan_ptr \<noteq> CHR 0x0A \<and> chars_count < max_width")
    case False
    with "1.prems" show ?thesis by (simp add: scan_line.simps)
  next
    case True
    obtain cp bl where d: "dec (drop scan_ptr tx) = (cp, bl)"
      by (cases "dec (drop scan_ptr tx)")
    show ?thesis
    proof (cases "bl \<le> 0")
      case neg: True
      from "1.prems" True d neg
      have "scan_line dec tx max_width (scan_ptr + 1) last_break (chars_count + 1)
              = (p', lb', c')"
        by (simp add: scan_line.simps [of dec tx max_width scan_ptr])
      from "1.IH"(1) [OF True d [symmetric] neg this] show ?thesis by simp
    next
      case pos: False
      from "1.prems" True d pos
      have "scan_line dec tx max_width (scan_ptr + nat bl)
              (if is_word_boundary cp then Some (scan_ptr + nat bl) else last_break)
              (chars_count + 1) = (p', lb', c')"
        by (simp add: scan_line.simps [of dec tx max_width scan_ptr])
      from "1.IH"(2) [OF True d [symmetric] pos this] pos show ?thesis by auto
    qed
  qed
qed

lemma wrap_line_progress:
  assumes "wrap_line dec tx max_width ptr = (line, ptr')"
      and "ptr < length tx" and "tx ! ptr \<noteq> CHR 0x0A"
  shows "ptr < ptr'"
proof -
  obtain sp lb cc where s: "scan_line dec tx max_width ptr None 0 = (sp, lb, cc)"
    by (cases "scan_line dec tx max_width ptr None 0") auto
  from scan_line_progress [OF s] assms(2,3)
  have le: "ptr \<le> sp" and lt: "0 < max_width \<Longrightarrow> ptr < sp" by auto
  have cc0: "\<not> 0 < max_width \<Longrightarrow> sp = ptr \<and> cc = 0 \<and> lb = None"
    using s by (simp add: scan_line.simps [of dec tx max_width ptr])
  show ?thesis
  proof (cases "0 < max_width")
    case True
    with lt have "ptr < sp" by simp
    with assms(1) s show ?thesis
      by (auto simp: wrap_line_def Let_def skip_blanks_def split: if_splits option.splits)
  next
    case False
    with cc0 assms s show ?thesis
      by (auto simp: wrap_line_def Let_def split: if_splits)
  qed
qed

text \<open>
  The outer loop.  A newline at the pointer gives an empty line; \<open>lines\<close> is the array of
  lines emitted so far.
\<close>

function wrap_loop ::
  "utf8_decoder \<Rightarrow> string \<Rightarrow> int \<Rightarrow> nat \<Rightarrow> string list \<Rightarrow> string list" where
  "wrap_loop dec text max_width ptr lines' =
     (if ptr < length text
      then (if text ! ptr = CHR 0x0A
            then wrap_loop dec text max_width (ptr + 1) (lines' @ [[]])
            else (case wrap_line dec text max_width ptr of
                    (line, ptr') \<Rightarrow> wrap_loop dec text max_width ptr' (lines' @ [line])))
      else lines')"
  by pat_completeness auto
termination wrap_loop
proof (relation "measure (\<lambda>(dec, tx, max_width, ptr, lines'). length tx - ptr)", goal_cases)
  case 1
  show ?case by simp
next
  case 2
  then show ?case by simp
next
  case 3
  then show ?case
    by (auto dest!: wrap_line_progress [OF sym])
qed

declare wrap_loop.simps [simp del]

text \<open>
  \<open>wrap_text_to_lines\<close>.  A \<open>NULL\<close> text or a width \<open>\<le> 0\<close> gives no lines; a width below 5
  is raised to 5; a text without any line gives one empty line.
\<close>

definition wrap_text_to_lines :: "utf8_decoder \<Rightarrow> string option \<Rightarrow> int \<Rightarrow> string list" where
  "wrap_text_to_lines dec text max_width =
     (case text of
        None \<Rightarrow> []
      | Some t \<Rightarrow>
          if max_width \<le> 0 then []
          else (let max_width = (if max_width < 5 then 5 else max_width);
                    lines' = wrap_loop dec t max_width 0 []
                in if lines' = [] then [[]] else lines'))"

subsection \<open>Counting the characters of a line\<close>

text \<open>
  The number of characters of a string, counted as the wrapper counts them: one per
  decoded codepoint, and one per byte that does not decode.  Escape sequences are counted
  like any other characters, so the number of visible codepoints of a line is at most
  this number.
\<close>

definition advance :: "utf8_decoder \<Rightarrow> string \<Rightarrow> nat" where
  "advance dec s = (if snd (dec s) \<le> 0 then 1 else nat (snd (dec s)))"

function codepoint_count :: "utf8_decoder \<Rightarrow> string \<Rightarrow> nat" where
  "codepoint_count dec s =
     (if s = [] then 0 else Suc (codepoint_count dec (drop (advance dec s) s)))"
  by pat_completeness auto
termination
  by (relation "measure (\<lambda>(dec, s). length s)") (auto simp: advance_def)

declare codepoint_count.simps [simp del]


text \<open>
  Modelled from the spec: the UTF-8 decoder \<open>tb_utf8_char_to_unicode\<close> of the terminal
  backend is missing from the sources; the spec says only that the text is UTF-8 and that
  characters are codepoints.  This is the usual decoding: the leading byte gives the
  length of the sequence, the payload bits of the bytes are concatenated, and a sequence
  cut short by the end of the string is an error.  It is the decoder of the concrete
  inputs below.
\<close>

definition tb_utf8_char_length :: "char \<Rightarrow> nat" where
  "tb_utf8_char_length c =
     (let b = (of_char c :: nat)
      in if b < 0xC0 then 1 else if b < 0xE0 then 2 else if b < 0xF0 then 3
         else if b < 0xF8 then 4 else if b < 0xFC then 5 else if b < 0xFE then 6 else 1)"

definition tb_utf8_char_to_unicode :: utf8_decoder where
  "tb_utf8_char_to_unicode c =
     (case c of
        [] \<Rightarrow> (0, 0)
      | c0 # rest \<Rightarrow>
          (let len = tb_utf8_char_length c0;
               mask = [128, 32, 16, 8, 4, 2] ! (len - 1)
           in if length rest < len - 1 then (0, - 1)
              else (fold (\<lambda>b result. result * 64 + of_char b mod 64) (take (len - 1) rest)
                      (of_char c0 mod mask),
                    int len)))"

section \<open>The ANSI-aware line renderer (main.c)\<close>

text \<open>The byte at an offset of a C string; the offset of its end holds the terminating NUL.\<close>

definition byte_at :: "string \<Rightarrow> nat \<Rightarrow> char" where
  "byte_at tx i = (if i < length tx then tx ! i else CHR 0x00)"











section \<open>The markdown renderer (third-party/md4c_ansi.c)\<close>

text \<open>
  Modelled from the spec: the markdown parser and its header, with the enumerations
  \<open>MD_ALIGN\<close>, \<open>MD_TEXTTYPE\<close> and \<open>MD_BLOCKTYPE\<close> and the detail structures of the blocks,
  are missing from the sources.  The spec says that the renderer consumes a document walk
  of block-enter, block-leave and text events driven by the parser.  The enumerations are
  datatypes with the values \<open>md4c_ansi.c\<close> names; of the block types those of code blocks
  and tables are modelled, each with the part of its detail structure that the renderer
  reads.  The model takes the sequence of callbacks as its input.

  What the renderer hands to \<open>process_output\<close> is appended to the field \<open>emitted\<close>.  The flags word is represented by the two flags the
  modelled functions test.  The arrays of the renderer are functions on indices; an index
  that overruns an array in the C code ends the run with \<open>Array_Overrun\<close>.
\<close>

datatype MD_ALIGN = MD_ALIGN_DEFAULT | MD_ALIGN_LEFT | MD_ALIGN_CENTER | MD_ALIGN_RIGHT

datatype MD_TEXTTYPE =
  MD_TEXT_NORMAL | MD_TEXT_NULLCHAR | MD_TEXT_BR | MD_TEXT_SOFTBR | MD_TEXT_ENTITY
  | MD_TEXT_CODE | MD_TEXT_HTML | MD_TEXT_LATEXMATH

datatype MD_BLOCKTYPE =
  MD_BLOCK_CODE "(string \<times> nat) option"
  | MD_BLOCK_TABLE | MD_BLOCK_THEAD | MD_BLOCK_TBODY | MD_BLOCK_TR
  | MD_BLOCK_TH MD_ALIGN | MD_BLOCK_TD MD_ALIGN

datatype md_error = Array_Overrun | Not_Modelled

record table_cell_t =
  cell_content :: string
  cell_length :: int
  cell_align :: MD_ALIGN

record table_row_t =
  row_cells :: "nat \<Rightarrow> table_cell_t"
  cell_count :: int

text \<open>
  The renderer state.  \<open>in_string\<close> holds the code of the quote character of an open
  string literal, 0 when there is none; \<open>in_comment\<close> is 0, 1 (line comment) or 2 (block
  comment).  The fields of paragraphs, list items and images are left out: no function
  modelled here reads them.
\<close>

record MD_ANSI =
  emitted :: string
  flag_no_color :: bool
  flag_compact :: bool
  list_level :: int
  quote_level :: int
  table_column :: int
  table_row :: int
  table_cols :: "nat \<Rightarrow> int"
  table_col_count :: int
  table_aligns :: "nat \<Rightarrow> MD_ALIGN"
  line_start :: bool
  in_table_header :: bool
  in_code_block :: bool
  code_line_number :: int
  code_content_width :: int
  in_string :: nat
  in_comment :: nat
  string_escape_next :: bool
  table_rows :: "nat \<Rightarrow> table_row_t"
  table_row_count :: int
  in_table :: bool
  table_header_rows :: int
  table_cell_content :: string
  table_cell_length :: int

definition ANSI_RESET :: string where "ANSI_RESET = CHR 0x1B # ''[0m''"
definition ANSI_BRIGHT_BLACK :: string where "ANSI_BRIGHT_BLACK = CHR 0x1B # ''[90m''"

definition BOX_H :: string where "BOX_H = [CHR 0xE2, CHR 0x94, CHR 0x80]"
definition BOX_V :: string where "BOX_V = [CHR 0xE2, CHR 0x94, CHR 0x82]"
definition BOX_TL :: string where "BOX_TL = [CHR 0xE2, CHR 0x94, CHR 0x8C]"
definition BOX_TR :: string where "BOX_TR = [CHR 0xE2, CHR 0x94, CHR 0x90]"
definition BOX_BL :: string where "BOX_BL = [CHR 0xE2, CHR 0x94, CHR 0x94]"
definition BOX_BR :: string where "BOX_BR = [CHR 0xE2, CHR 0x94, CHR 0x98]"
definition BOX_CROSS :: string where "BOX_CROSS = [CHR 0xE2, CHR 0x94, CHR 0xBC]"
definition BOX_T_DOWN :: string where "BOX_T_DOWN = [CHR 0xE2, CHR 0x94, CHR 0xAC]"
definition BOX_T_UP :: string where "BOX_T_UP = [CHR 0xE2, CHR 0x94, CHR 0xB4]"
definition BOX_T_RIGHT :: string where "BOX_T_RIGHT = [CHR 0xE2, CHR 0x94, CHR 0x9C]"
definition BOX_T_LEFT :: string where "BOX_T_LEFT = [CHR 0xE2, CHR 0x94, CHR 0xA4]"

text \<open>
  \<open>render_verbatim\<close>, and a loop that renders the same bytes \<open>n\<close> times (no time when
  \<open>n\<close> is negative).
\<close>

definition render_verbatim :: "string \<Rightarrow> MD_ANSI \<Rightarrow> MD_ANSI" where
  "render_verbatim verbatim r = r\<lparr>emitted := emitted r @ verbatim\<rparr>"

definition render_times :: "int \<Rightarrow> string \<Rightarrow> MD_ANSI \<Rightarrow> MD_ANSI" where
  "render_times n verbatim r = render_verbatim (concat (replicate (nat n) verbatim)) r"

definition render_newline :: "MD_ANSI \<Rightarrow> MD_ANSI" where
  "render_newline r = (render_verbatim [CHR 0x0A] r)\<lparr>line_start := True\<rparr>"

definition render_indent :: "MD_ANSI \<Rightarrow> MD_ANSI" where
  "render_indent r =
     render_times (list_level r) ''  ''
       (render_times (quote_level r)
          (if flag_no_color r then BOX_V @ '' ''
           else ANSI_BRIGHT_BLACK @ BOX_V @ '' '' @ ANSI_RESET) r)"

text \<open>
  \<open>calculate_text_width\<close> counts the bytes of a cell, leaving out CSI sequences up to their
  \<open>m\<close>.  \<open>skip_to_m\<close> is its inner loop.
\<close>

function skip_to_m :: "string \<Rightarrow> nat \<Rightarrow> nat \<Rightarrow> nat" where
  "skip_to_m text len i =
     (if i < len \<and> byte_at text i \<noteq> CHR ''m'' then skip_to_m text len (i + 1) else i)"
  by pat_completeness auto
termination
  by (relation "measure (\<lambda>(tx, len, i). len - i)") auto

declare skip_to_m.simps [simp del]

lemma skip_to_m_ge: "i \<le> skip_to_m tx len i"
proof (induction tx len i rule: skip_to_m.induct)
  case (1 tx len i)
  then show ?case by (subst skip_to_m.simps) (auto simp: Suc_leD)
qed

function calculate_text_width_from :: "string \<Rightarrow> nat \<Rightarrow> nat \<Rightarrow> int \<Rightarrow> int" where
  "calculate_text_width_from text len i width =
     (if i < len
      then (if byte_at text i = CHR 0x1B
            then (let i = i + 1 in
                  if i < len \<and> byte_at text i = CHR ''[''
                  then (let i = i + 1;
                            i = skip_to_m text len i;
                            i = (if i < len then i + 1 else i)
                        in calculate_text_width_from text len i width)
                  else calculate_text_width_from text len i width)
            else calculate_text_width_from text len (i + 1) (width + 1))
      else width)"
  by pat_completeness auto
termination
proof (relation "measure (\<lambda>(tx, len, i, width). len - i)", goal_cases)
  case 1
  show ?case by simp
next
  case (2 tx len i width x xa xb xc)
  then show ?case using skip_to_m_ge [of "Suc (Suc i)" tx len] by auto
next
  case 3
  then show ?case by auto
next
  case 4
  then show ?case by auto
qed

declare calculate_text_width_from.simps [simp del]

definition calculate_text_width :: "string \<Rightarrow> int \<Rightarrow> int" where
  "calculate_text_width text len = calculate_text_width_from text (nat len) 0 0"

text \<open>
  Text of a table cell is appended to the cell buffer of 256 bytes while it fits.
\<close>

definition add_to_table_cell_buffer :: "string \<Rightarrow> MD_ANSI \<Rightarrow> MD_ANSI" where
  "add_to_table_cell_buffer text r =
     (if table_cell_length r + int (length text) < 255
      then r\<lparr>table_cell_content :=
               take (nat (table_cell_length r)) (table_cell_content r) @ text,
             table_cell_length := table_cell_length r + int (length text)\<rparr>
      else r)"

text \<open>
  \<open>render_complete_table\<close>.  \<open>measure_cell\<close> is the body of its first loop, which widens
  the columns to their cells; \<open>render_border\<close> is the loop that draws a horizontal border
  (the three border loops differ in their glyphs only); \<open>render_table_cell\<close> and
  \<open>render_table_row\<close> are the bodies of the loops over the cells and the rows.  A row
  with more than 64 cells overruns the arrays.
\<close>

definition measure_cell :: "nat \<Rightarrow> nat \<Rightarrow> MD_ANSI \<Rightarrow> MD_ANSI" where
  "measure_cell i j r =
     (let cell = row_cells (table_rows r i) j;
          content_width = calculate_text_width (cell_content cell) (cell_length cell);
          r1 = (if table_cols r j < content_width
                then r\<lparr>table_cols := (table_cols r)(j := content_width)\<rparr> else r)
      in if table_col_count r1 \<le> int j then r1\<lparr>table_col_count := int j + 1\<rparr> else r1)"

definition table_color :: "MD_ANSI \<Rightarrow> string" where
  "table_color r = (if flag_no_color r then [] else ANSI_BRIGHT_BLACK)"

definition table_reset :: "MD_ANSI \<Rightarrow> string" where
  "table_reset r = (if flag_no_color r then [] else ANSI_RESET)"

definition render_border :: "string \<Rightarrow> string \<Rightarrow> string \<Rightarrow> MD_ANSI \<Rightarrow> MD_ANSI" where
  "render_border left junction right r =
     (let r1 = (if line_start r then render_indent r else r);
          r2 = render_verbatim left (render_verbatim (table_color r1) r1);
          r3 = fold (\<lambda>i r. let width = table_cols r i + 2;
                              r' = render_times width BOX_H r
                          in if int i < table_col_count r' - 1
                             then render_verbatim junction r' else r')
                 [0..<nat (table_col_count r2)] r2
      in render_newline (render_verbatim (table_reset r3) (render_verbatim right r3)))"

definition render_table_cell :: "nat \<Rightarrow> nat \<Rightarrow> MD_ANSI \<Rightarrow> MD_ANSI" where
  "render_table_cell i j r =
     (let r1 = render_verbatim '' '' r;
          r2 = (if int j < cell_count (table_rows r1 i)
                then (let cell = row_cells (table_rows r1 i) j;
                          content_width = calculate_text_width (cell_content cell) (cell_length cell);
                          cell_width = table_cols r1 j;
                          padding = cell_width - content_width;
                          padding = (if padding < 0 then 0 else padding);
                          (left_pad, right_pad) =
                            (case cell_align cell of
                               MD_ALIGN_RIGHT \<Rightarrow> (padding, 0)
                             | MD_ALIGN_CENTER \<Rightarrow> (padding div 2, padding - padding div 2)
                             | _ \<Rightarrow> (0, padding))
                      in render_times right_pad '' ''
                           (render_verbatim
                              (map (byte_at (cell_content cell)) [0..<nat (cell_length cell)])
                              (render_times left_pad '' '' r1)))
                else render_times (table_cols r1 j) '' '' r1)
      in render_verbatim (table_reset r2)
           (render_verbatim BOX_V
              (render_verbatim (table_color r2) (render_verbatim '' '' r2))))"

definition render_table_row :: "nat \<Rightarrow> MD_ANSI \<Rightarrow> MD_ANSI" where
  "render_table_row i r =
     (let r1 = (if line_start r then render_indent r else r);
          r2 = render_verbatim (table_reset r1)
                 (render_verbatim BOX_V (render_verbatim (table_color r1) r1));
          r3 = fold (render_table_cell i) [0..<nat (table_col_count r2)] r2;
          r4 = render_newline r3
      in if int i = table_header_rows r4 - 1 \<and> int i < table_row_count r4 - 1
         then render_border BOX_T_RIGHT BOX_CROSS BOX_T_LEFT r4
         else r4)"

definition render_complete_table :: "MD_ANSI \<Rightarrow> md_error + MD_ANSI" where
  "render_complete_table r =
     (if table_row_count r = 0 then Inr r
      else if list_ex (\<lambda>i. 64 < cell_count (table_rows r i)) [0..<nat (table_row_count r)]
      then Inl Array_Overrun
      else
        (let r1 = fold (\<lambda>i r. fold (measure_cell i) [0..<nat (cell_count (table_rows r i))] r)
                    [0..<nat (table_row_count r)] r;
             r2 = render_border BOX_TL BOX_T_DOWN BOX_TR r1;
             r3 = fold render_table_row [0..<nat (table_row_count r2)] r2
         in Inr (render_border BOX_BL BOX_T_UP BOX_BR r3)))"

text \<open>
  The renderer as \<open>md_ansi\<close> initialises it, and the zeroed table storage.
\<close>

definition zero_cell :: table_cell_t where
  "zero_cell = \<lparr>cell_content = [], cell_length = 0, cell_align = MD_ALIGN_DEFAULT\<rparr>"

definition zero_row :: table_row_t where
  "zero_row = \<lparr>row_cells = (\<lambda>j. zero_cell), cell_count = 0\<rparr>"

definition md_ansi_init :: "bool \<Rightarrow> bool \<Rightarrow> MD_ANSI" where
  "md_ansi_init no_color compact =
     \<lparr>emitted = [], flag_no_color = no_color, flag_compact = compact,
      list_level = 0, quote_level = 0, table_column = 0, table_row = 0,
      table_cols = (\<lambda>j. 0), table_col_count = 0, table_aligns = (\<lambda>j. MD_ALIGN_DEFAULT),
      line_start = True, in_table_header = False, in_code_block = False,
      code_line_number = 0, code_content_width = 0, in_string = 0, in_comment = 0,
      string_escape_next = False, table_rows = (\<lambda>i. zero_row), table_row_count = 0,
      in_table = False, table_header_rows = 0, table_cell_content = [],
      table_cell_length = 0\<rparr>"


subsection \<open>The code highlighter\<close>

datatype token_type_t =
  TOKEN_NORMAL | TOKEN_KEYWORD | TOKEN_STRING | TOKEN_COMMENT | TOKEN_NUMBER | TOKEN_OPERATOR
  | TOKEN_IDENTIFIER | TOKEN_PREPROCESSOR | TOKEN_BOOLEAN | TOKEN_NULL | TOKEN_FUNCTION
  | TOKEN_TYPE | TOKEN_CONSTANT

definition ANSI_BOLD :: string where "ANSI_BOLD = CHR 0x1B # ''[1m''"
definition ANSI_DIM :: string where "ANSI_DIM = CHR 0x1B # ''[2m''"
definition ANSI_WHITE :: string where "ANSI_WHITE = CHR 0x1B # ''[37m''"
definition ANSI_RED :: string where "ANSI_RED = CHR 0x1B # ''[38;2;242;40;60m''"
definition ANSI_GREEN :: string where "ANSI_GREEN = CHR 0x1B # ''[38;2;0;174;107m''"
definition ANSI_YELLOW :: string where "ANSI_YELLOW = CHR 0x1B # ''[38;2;255;194;0m''"
definition ANSI_BLUE :: string where "ANSI_BLUE = CHR 0x1B # ''[38;2;39;125;255m''"
definition ANSI_MAGENTA :: string where "ANSI_MAGENTA = CHR 0x1B # ''[38;2;215;46;130m''"
definition ANSI_CYAN :: string where "ANSI_CYAN = CHR 0x1B # ''[38;2;135;90;251m''"
definition ANSI_ORANGE :: string where "ANSI_ORANGE = CHR 0x1B # ''[38;2;255;122;0m''"
definition ANSI_BG_BLACK :: string where "ANSI_BG_BLACK = CHR 0x1B # ''[40m''"

text \<open>
  The keyword tables.  The tables of constants and of built-in functions are left out:
  \<open>classify_word\<close> returns the same token type whether the word is found in them or not.
\<close>

definition md_keywords :: "string list" where
  "md_keywords =
     [''if'', ''else'', ''elif'', ''endif'', ''while'', ''for'',
      ''do'', ''break'', ''continue'', ''switch'', ''case'', ''default'',
      ''goto'', ''return'', ''yield'', ''await'', ''try'', ''catch'',
      ''except'', ''finally'', ''throw'', ''raise'', ''with'', ''in'',
      ''is'', ''function'', ''def'', ''fn'', ''func'', ''lambda'',
      ''async'', ''import'', ''include'', ''from'', ''as'', ''namespace'',
      ''using'', ''package'', ''module'', ''export'', ''require'', ''new'',
      ''delete'', ''malloc'', ''free'', ''sizeof'', ''typeof'', ''instanceof'',
      ''this'', ''self'', ''super'', ''base'', ''override'', ''virtual'',
      ''inline'', ''explicit'', ''public'', ''private'', ''protected'', ''static'',
      ''extern'', ''register'', ''volatile'', ''abstract'', ''final'', ''const'',
      ''let'', ''var'', ''auto'', ''and'', ''or'', ''not'',
      ''xor'', ''begin'', ''end'', ''then'', ''fi'', ''done'',
      ''until'', ''unless'']"

definition type_keywords :: "string list" where
  "type_keywords =
     [''int'', ''float'', ''double'', ''char'', ''string'', ''bool'',
      ''boolean'', ''void'', ''signed'', ''unsigned'', ''short'', ''long'',
      ''struct'', ''union'', ''enum'', ''typedef'', ''class'', ''interface'',
      ''object'', ''array'', ''list'', ''dict'', ''map'', ''set'',
      ''size_t'', ''ssize_t'', ''uint8_t'', ''uint16_t'', ''uint32_t'', ''uint64_t'',
      ''int8_t'', ''int16_t'', ''int32_t'', ''int64_t'', ''FILE'', ''NULL'']"

definition boolean_null :: "string list" where
  "boolean_null =
     [''true'', ''false'', ''True'', ''False'', ''TRUE'', ''FALSE'', ''null'',
      ''NULL'', ''nil'', ''None'', ''undefined'', ''NaN'']"

definition operators :: string where
  "operators = ''+-*/%=<>!&|^~()[]{}.,;:?@#$''"

definition get_token_color :: "token_type_t \<Rightarrow> bool \<Rightarrow> string" where
  "get_token_color type no_color =
     (if no_color then []
      else (case type of
              TOKEN_KEYWORD \<Rightarrow> ANSI_BLUE
            | TOKEN_TYPE \<Rightarrow> ANSI_CYAN
            | TOKEN_STRING \<Rightarrow> ANSI_GREEN
            | TOKEN_COMMENT \<Rightarrow> ANSI_DIM @ ANSI_WHITE
            | TOKEN_NUMBER \<Rightarrow> ANSI_ORANGE
            | TOKEN_OPERATOR \<Rightarrow> ANSI_MAGENTA
            | TOKEN_PREPROCESSOR \<Rightarrow> ANSI_YELLOW
            | TOKEN_BOOLEAN \<Rightarrow> ANSI_BOLD @ ANSI_ORANGE
            | TOKEN_NULL \<Rightarrow> ANSI_RED
            | TOKEN_FUNCTION \<Rightarrow> ANSI_BOLD @ ANSI_CYAN
            | TOKEN_CONSTANT \<Rightarrow> ANSI_BOLD @ ANSI_YELLOW
            | TOKEN_IDENTIFIER \<Rightarrow> []
            | _ \<Rightarrow> []))"

definition get_reset_color :: "bool \<Rightarrow> string" where
  "get_reset_color no_color = (if no_color then [] else ANSI_RESET)"

text \<open>
  The character classes of the C library in the C locale.  A byte from 0x80 on belongs to
  no class.
\<close>

definition isspace :: "char \<Rightarrow> bool" where
  "isspace c \<longleftrightarrow> c = CHR '' '' \<or> (9 \<le> (of_char c :: nat) \<and> (of_char c :: nat) \<le> 13)"

definition isdigit :: "char \<Rightarrow> bool" where
  "isdigit c \<longleftrightarrow> 48 \<le> (of_char c :: nat) \<and> (of_char c :: nat) \<le> 57"

definition islower :: "char \<Rightarrow> bool" where
  "islower c \<longleftrightarrow> 97 \<le> (of_char c :: nat) \<and> (of_char c :: nat) \<le> 122"

definition isupper :: "char \<Rightarrow> bool" where
  "isupper c \<longleftrightarrow> 65 \<le> (of_char c :: nat) \<and> (of_char c :: nat) \<le> 90"

definition isalpha :: "char \<Rightarrow> bool" where
  "isalpha c \<longleftrightarrow> islower c \<or> isupper c"

definition isalnum :: "char \<Rightarrow> bool" where
  "isalnum c \<longleftrightarrow> isalpha c \<or> isdigit c"

definition is_word_char :: "char \<Rightarrow> bool" where
  "is_word_char c \<longleftrightarrow> isalnum c \<or> c = CHR ''_''"

text \<open>
  \<open>is_word_boundary\<close> of the markdown renderer (on bytes).
\<close>

definition md_is_word_boundary :: "char \<Rightarrow> bool" where
  "md_is_word_boundary ch \<longleftrightarrow>
     ch = CHR '' '' \<or> ch = CHR 0x09 \<or> ch = CHR 0x0A \<or> ch = CHR 0x0D \<or> ch = CHR ''.'' \<or>
     ch = CHR '','' \<or> ch = CHR '';'' \<or> ch = CHR '':'' \<or> ch = CHR ''!'' \<or> ch = CHR ''?'' \<or>
     ch = CHR ''-'' \<or> ch = CHR ''_'' \<or> ch = CHR ''('' \<or> ch = CHR '')'' \<or> ch = CHR ''['' \<or>
     ch = CHR '']'' \<or> ch = CHR ''{'' \<or> ch = CHR ''}'' \<or> ch = CHR 0x22 \<or> ch = CHR 0x27 \<or>
     ch = CHR ''/'' \<or> ch = CHR 0x5C \<or> ch = CHR ''|''"

definition classify_word :: "string \<Rightarrow> string \<Rightarrow> token_type_t" where
  "classify_word word following_chars =
     (if 256 \<le> length word then TOKEN_IDENTIFIER
      else
        (let is_constant_pattern =
               list_all (\<lambda>c. \<not> (islower c \<or> (\<not> isupper c \<and> c \<noteq> CHR ''_'' \<and> \<not> isdigit c))) word;
             has_letter = list_ex isalpha word
         in if is_constant_pattern \<and> has_letter \<and> 1 < length word then TOKEN_CONSTANT
            else if List.member type_keywords word then TOKEN_TYPE
            else if List.member md_keywords word then TOKEN_KEYWORD
            else if List.member boolean_null word
            then (if word = ''null'' \<or> word = ''NULL'' \<or> word = ''nil'' \<or> word = ''None''
                     \<or> word = ''undefined'' \<or> word = ''NaN''
                  then TOKEN_NULL else TOKEN_BOOLEAN)
            else if following_chars \<noteq> []
                    \<and> (case dropWhile isspace following_chars of
                          [] \<Rightarrow> False | c # _ \<Rightarrow> c = CHR ''('')
            then TOKEN_FUNCTION
            else TOKEN_IDENTIFIER))"

definition is_number_start :: "char \<Rightarrow> bool" where
  "is_number_start c \<longleftrightarrow> isdigit c \<or> c = CHR ''.''"

definition is_number_char :: "char \<Rightarrow> bool" where
  "is_number_char c \<longleftrightarrow>
     isdigit c \<or> c = CHR ''.'' \<or> c = CHR ''x'' \<or> c = CHR ''X'' \<or> c = CHR ''e'' \<or>
     c = CHR ''E'' \<or> c = CHR ''f'' \<or> c = CHR ''F'' \<or> c = CHR ''l'' \<or> c = CHR ''L'' \<or>
     c = CHR ''u'' \<or> c = CHR ''U''
     \<or> (97 \<le> (of_char c :: nat) \<and> (of_char c :: nat) \<le> 102)
     \<or> (65 \<le> (of_char c :: nat) \<and> (of_char c :: nat) \<le> 70)"

text \<open>
  The bytes \<open>line[start .. start + n)\<close>.  The chunk handed to the highlighter is followed
  by its terminating NUL, which is what is read at the offset \<open>line_len\<close>.  \<open>emit\<close>
  renders bytes and adds their number to the width of the line.
\<close>

definition bytes_from :: "string \<Rightarrow> nat \<Rightarrow> nat \<Rightarrow> string" where
  "bytes_from line start n = map (byte_at line) [start..<start + n]"

definition emit :: "string \<Rightarrow> MD_ANSI \<Rightarrow> MD_ANSI" where
  "emit s r = (render_verbatim s r)\<lparr>code_content_width := code_content_width r + int (length s)\<rparr>"

text \<open>
  The inner loops of the highlighter: the search for the end of a block comment, the
  search for the closing quote (a backslash skips two bytes), and the scans over a run of
  characters of one class.
\<close>

function find_comment_end :: "string \<Rightarrow> nat \<Rightarrow> nat \<times> bool" where
  "find_comment_end line i =
     (if i + 1 < length line
      then (if line ! i = CHR ''*'' \<and> line ! (i + 1) = CHR ''/'' then (i + 2, True)
            else find_comment_end line (i + 1))
      else (i, False))"
  by pat_completeness auto
termination
  by (relation "measure (\<lambda>(line, i). length line - i)") auto

declare find_comment_end.simps [simp del]

function find_string_end :: "string \<Rightarrow> char \<Rightarrow> nat \<Rightarrow> nat \<times> bool" where
  "find_string_end line quote i =
     (if i < length line
      then (if line ! i = CHR 0x5C then find_string_end line quote (i + 2)
            else if line ! i = quote then (i + 1, True)
            else find_string_end line quote (i + 1))
      else (i, False))"
  by pat_completeness auto
termination
  by (relation "measure (\<lambda>(line, quote, i). length line - i)") auto

declare find_string_end.simps [simp del]

definition scan_while :: "(char \<Rightarrow> bool) \<Rightarrow> string \<Rightarrow> nat \<Rightarrow> nat" where
  "scan_while P line i = i + length (takeWhile P (drop i line))"

definition two_char_operator :: "char \<Rightarrow> char \<Rightarrow> bool" where
  "two_char_operator c next \<longleftrightarrow>
     (c = CHR ''<'' \<and> next = CHR ''<'') \<or> (c = CHR ''>'' \<and> next = CHR ''>'') \<or>
     (c = CHR ''='' \<and> next = CHR ''='') \<or> (c = CHR ''!'' \<and> next = CHR ''='') \<or>
     (c = CHR ''<'' \<and> next = CHR ''='') \<or> (c = CHR ''>'' \<and> next = CHR ''='') \<or>
     (c = CHR ''&'' \<and> next = CHR ''&'') \<or> (c = CHR ''|'' \<and> next = CHR ''|'') \<or>
     (c = CHR ''+'' \<and> next = CHR ''+'') \<or> (c = CHR ''-'' \<and> next = CHR ''-'') \<or>
     (c = CHR ''+'' \<and> next = CHR ''='') \<or> (c = CHR ''-'' \<and> next = CHR ''='') \<or>
     (c = CHR ''*'' \<and> next = CHR ''='') \<or> (c = CHR ''/'' \<and> next = CHR ''='') \<or>
     (c = CHR ''%'' \<and> next = CHR ''='') \<or> (c = CHR ''^'' \<and> next = CHR ''='') \<or>
     (c = CHR ''&'' \<and> next = CHR ''='') \<or> (c = CHR ''|'' \<and> next = CHR ''='')"

text \<open>
  The branches of the loop body of \<open>highlight_code_line\<close>, in the order of the source.
  Each returns whether the loop goes on, the next offset and the renderer.
\<close>

definition hl_in_string :: "string \<Rightarrow> nat \<Rightarrow> MD_ANSI \<Rightarrow> bool \<times> nat \<times> MD_ANSI" where
  "hl_in_string line i r =
     (let c = line ! i in
      if c = CHR 0x5C
      then (True, i + 1, emit [c] (r\<lparr>string_escape_next := True\<rparr>))
      else if of_char c = in_string r
      then (True, i + 1,
            render_verbatim (get_reset_color (flag_no_color r)) (emit [c] (r\<lparr>in_string := 0\<rparr>)))
      else (True, i + 1, emit [c] r))"

definition hl_in_block_comment :: "string \<Rightarrow> nat \<Rightarrow> MD_ANSI \<Rightarrow> bool \<times> nat \<times> MD_ANSI" where
  "hl_in_block_comment line i r =
     (if i + 1 < length line \<and> line ! i = CHR ''*'' \<and> line ! (i + 1) = CHR ''/''
      then (True, i + 2,
            render_verbatim (get_reset_color (flag_no_color r))
              ((emit ''*/'' r)\<lparr>in_comment := 0\<rparr>))
      else (True, i + 1, emit [line ! i] r))"

definition hl_block_comment_start :: "string \<Rightarrow> nat \<Rightarrow> MD_ANSI \<Rightarrow> bool \<times> nat \<times> MD_ANSI" where
  "hl_block_comment_start line i r =
     (let r1 = render_verbatim (get_token_color TOKEN_COMMENT (flag_no_color r)) r;
          start = i;
          (i, found) = find_comment_end line (i + 2);
          r2 = (if found then r1\<lparr>in_comment := 0\<rparr> else r1)
      in if in_comment r2 = 0
         then (True, i,
               render_verbatim (get_reset_color (flag_no_color r))
                 (emit (bytes_from line start (i - start)) r2))
         else (True, i, emit (bytes_from line start (i - start)) (r2\<lparr>in_comment := 2\<rparr>)))"

definition hl_line_comment :: "string \<Rightarrow> nat \<Rightarrow> MD_ANSI \<Rightarrow> bool \<times> nat \<times> MD_ANSI" where
  "hl_line_comment line i r =
     (False, length line,
      (emit (bytes_from line i (length line - i))
         (render_verbatim (get_token_color TOKEN_COMMENT (flag_no_color r)) r))
      \<lparr>in_comment := 1\<rparr>)"

definition hl_preprocessor :: "string \<Rightarrow> nat \<Rightarrow> MD_ANSI \<Rightarrow> bool \<times> nat \<times> MD_ANSI" where
  "hl_preprocessor line i r =
     (let r1 = render_verbatim (get_token_color TOKEN_PREPROCESSOR (flag_no_color r)) r;
          start = i;
          i = scan_while (\<lambda>c. \<not> isspace c) line i
      in (True, i,
          render_verbatim (get_reset_color (flag_no_color r))
            (emit (bytes_from line start (i - start)) r1)))"

definition hl_string_start :: "string \<Rightarrow> nat \<Rightarrow> MD_ANSI \<Rightarrow> bool \<times> nat \<times> MD_ANSI" where
  "hl_string_start line i r =
     (let r1 = render_verbatim (get_token_color TOKEN_STRING (flag_no_color r)) r;
          start = i;
          quote = line ! i;
          r2 = r1\<lparr>in_string := of_char quote, string_escape_next := False\<rparr>;
          (i, closed) = find_string_end line quote (i + 1);
          r3 = (if closed then r2\<lparr>in_string := 0\<rparr> else r2);
          r4 = emit (bytes_from line start (i - start)) r3
      in (True, i,
          if in_string r4 = 0 then render_verbatim (get_reset_color (flag_no_color r)) r4
          else r4))"

definition hl_number :: "string \<Rightarrow> nat \<Rightarrow> MD_ANSI \<Rightarrow> bool \<times> nat \<times> MD_ANSI" where
  "hl_number line i r =
     (let r1 = render_verbatim (get_token_color TOKEN_NUMBER (flag_no_color r)) r;
          start = i;
          i = scan_while is_number_char line i
      in (True, i,
          render_verbatim (get_reset_color (flag_no_color r))
            (emit (bytes_from line start (i - start)) r1)))"

definition hl_operator :: "string \<Rightarrow> nat \<Rightarrow> MD_ANSI \<Rightarrow> bool \<times> nat \<times> MD_ANSI" where
  "hl_operator line i r =
     (let r1 = render_verbatim (get_token_color TOKEN_OPERATOR (flag_no_color r)) r;
          start = i;
          i = (if i + 1 < length line
               then (if two_char_operator (line ! i) (line ! (i + 1)) then i + 2 else i + 1)
               else i + 1)
      in (True, i,
          render_verbatim (get_reset_color (flag_no_color r))
            (emit (bytes_from line start (i - start)) r1)))"

definition hl_word :: "string \<Rightarrow> nat \<Rightarrow> MD_ANSI \<Rightarrow> bool \<times> nat \<times> MD_ANSI" where
  "hl_word line i r =
     (let start = i;
          i = scan_while is_word_char line i;
          is_complete_word = \<not> (0 < start \<and> is_word_char (line ! (start - 1)))
                             \<and> \<not> (i < length line \<and> is_word_char (line ! i));
          type = (if is_complete_word
                  then classify_word (bytes_from line start (i - start)) (drop i line)
                  else TOKEN_IDENTIFIER);
          color = get_token_color type (flag_no_color r);
          r1 = (if color \<noteq> []
                then render_verbatim (get_reset_color (flag_no_color r))
                       (render_verbatim (bytes_from line start (i - start))
                          (render_verbatim color r))
                else render_verbatim (bytes_from line start (i - start)) r)
      in (True, i, r1\<lparr>code_content_width := code_content_width r1 + int (i - start)\<rparr>))"

text \<open>
  \<open>strchr\<close> as a test: the byte occurs in the C string.  The terminating NUL counts as part
  of the string, so a NUL byte is found in every string.
\<close>

definition strchr :: "string \<Rightarrow> char \<Rightarrow> bool" where
  "strchr s c \<longleftrightarrow> c = CHR 0x00 \<or> List.member s c"

text \<open>
  The loop body of \<open>highlight_code_line\<close>.
\<close>

definition highlight_step :: "string \<Rightarrow> nat \<Rightarrow> MD_ANSI \<Rightarrow> bool \<times> nat \<times> MD_ANSI" where
  "highlight_step line i r =
     (if isspace (line ! i) then (True, i + 1, emit [line ! i] r)
      else if in_string r \<noteq> 0 \<and> string_escape_next r
      then (True, i + 1, (emit [line ! i] r)\<lparr>string_escape_next := False\<rparr>)
      else if in_string r \<noteq> 0 then hl_in_string line i r
      else if in_comment r = 2 then hl_in_block_comment line i r
      else if in_comment r = 1 then (True, i + 1, emit [line ! i] r)
      else if i + 1 < length line \<and> line ! i = CHR ''/'' \<and> line ! (i + 1) = CHR ''*''
      then hl_block_comment_start line i r
      else if (i + 1 < length line \<and> line ! i = CHR ''/'' \<and> line ! (i + 1) = CHR ''/'')
              \<or> (line ! i = CHR ''#''
                  \<and> \<not> (line ! i = CHR ''#'' \<and> (i = 0 \<or> isspace (line ! (i - 1)))))
              \<or> (i + 1 < length line \<and> line ! i = CHR ''-'' \<and> line ! (i + 1) = CHR ''-'')
      then hl_line_comment line i r
      else if line ! i = CHR ''#'' \<and> (i = 0 \<or> isspace (line ! (i - 1)))
      then hl_preprocessor line i r
      else if line ! i = CHR 0x22 \<or> line ! i = CHR 0x27 \<or> line ! i = CHR 0x60
      then hl_string_start line i r
      else if is_number_start (line ! i) \<and> (i = 0 \<or> \<not> is_word_char (line ! (i - 1)))
      then hl_number line i r
      else if strchr operators (line ! i) then hl_operator line i r
      else if is_word_char (line ! i) then hl_word line i r
      else (True, i + 1, emit [line ! i] r))"

text \<open>
  Every turn of the highlighter loop that does not leave the loop moves the offset forward.
\<close>

lemma find_comment_end_ge: "find_comment_end line i = (i', found) \<Longrightarrow> i \<le> i'"
proof (induction line i rule: find_comment_end.induct)
  case (1 line i)
  then show ?case
    by (subst (asm) (2) find_comment_end.simps) (auto split: if_splits)
qed

lemma find_string_end_ge: "find_string_end line quote i = (i', closed) \<Longrightarrow> i \<le> i'"
proof (induction line quote i rule: find_string_end.induct)
  case (1 line quote i)
  then show ?case
    by (subst (asm) (3) find_string_end.simps) (auto split: if_splits)
qed

lemma scan_while_gt: "i < length line \<Longrightarrow> P (line ! i) \<Longrightarrow> i < scan_while P line i"
  by (simp add: scan_while_def Cons_nth_drop_Suc [symmetric])

lemma hl_branches_advance:
  "i < fst (snd (hl_in_string line i r))"
  "i < fst (snd (hl_in_block_comment line i r))"
  "i < fst (snd (hl_block_comment_start line i r))"
  "i < fst (snd (hl_string_start line i r))"
  "i < fst (snd (hl_operator line i r))"
proof -
  have ce: "i < fst (find_comment_end line (i + 2))"
    using find_comment_end_ge [of line "i + 2"] by (cases "find_comment_end line (i + 2)") auto
  have se: "i < fst (find_string_end line q (i + 1))" for q
    using find_string_end_ge [of line q "i + 1"] by (cases "find_string_end line q (i + 1)") auto
  show "i < fst (snd (hl_in_string line i r))"
    by (simp add: hl_in_string_def Let_def)
  show "i < fst (snd (hl_in_block_comment line i r))"
    by (simp add: hl_in_block_comment_def)
  show "i < fst (snd (hl_block_comment_start line i r))"
    using ce by (simp add: hl_block_comment_start_def Let_def case_prod_beta)
  show "i < fst (snd (hl_string_start line i r))"
    using se by (simp add: hl_string_start_def Let_def case_prod_beta)
  show "i < fst (snd (hl_operator line i r))"
    by (simp add: hl_operator_def Let_def)
qed

lemma hl_scans_advance:
  assumes "i < length line"
  shows "\<not> isspace (line ! i) \<Longrightarrow> i < fst (snd (hl_preprocessor line i r))"
    and "is_number_start (line ! i) \<Longrightarrow> i < fst (snd (hl_number line i r))"
    and "is_word_char (line ! i) \<Longrightarrow> i < fst (snd (hl_word line i r))"
  using assms
  by (auto simp: hl_preprocessor_def hl_number_def hl_word_def Let_def
        is_number_start_def is_number_char_def intro!: scan_while_gt)

lemma hl_line_comment_stops: "\<not> fst (hl_line_comment line i r)"
  by (simp add: hl_line_comment_def)

lemma highlight_step_advances:
  assumes "i < length line"
  shows "\<not> fst (highlight_step line i r) \<or> i < fst (snd (highlight_step line i r))"
  unfolding highlight_step_def
  using hl_scans_advance [OF assms, of r]
  by (simp add: hl_branches_advance hl_line_comment_stops)

lemma highlight_step_progress:
  assumes "i < length line" and "highlight_step line i r = (True, i', r')"
  shows "i < i'"
  using highlight_step_advances [OF assms(1), of r] assms(2) by simp

function highlight_code_line_from :: "string \<Rightarrow> nat \<Rightarrow> MD_ANSI \<Rightarrow> MD_ANSI" where
  "highlight_code_line_from line i r =
     (if i < length line
      then (case highlight_step line i r of
              (continue, i', r') \<Rightarrow>
                if continue then highlight_code_line_from line i' r' else r')
      else r)"
  by pat_completeness auto
termination
proof (relation "measure (\<lambda>(line, i, r). length line - i)", goal_cases)
  case 1
  show ?case by simp
next
  case 2
  then show ?case
    by (auto intro!: diff_less_mono2 dest: highlight_step_progress [OF _ sym])
qed

declare highlight_code_line_from.simps [simp del]

definition highlight_code_line :: "string \<Rightarrow> MD_ANSI \<Rightarrow> MD_ANSI" where
  "highlight_code_line line r = highlight_code_line_from line 0 r"

text \<open>
  The line number as \<open>snprintf\<close> writes it with \<open>%3d\<close> into a buffer of 8 bytes.
\<close>

function decimal :: "nat \<Rightarrow> string" where
  "decimal n = (if n < 10 then [char_of (48 + n)] else decimal (n div 10) @ [char_of (48 + n mod 10)])"
  by pat_completeness auto
termination
  by (relation "measure id") auto

declare decimal.simps [simp del]

definition format_3d :: "int \<Rightarrow> string" where
  "format_3d n =
     (let s = (if n < 0 then CHR ''-'' # decimal (nat (- n)) else decimal (nat n))
      in take 7 (replicate (3 - length s) CHR '' '' @ s))"

definition render_code_line_prefix :: "MD_ANSI \<Rightarrow> MD_ANSI" where
  "render_code_line_prefix r =
     (let color = (\<lambda>s r. if \<not> flag_no_color r then render_verbatim s r else r);
          r1 = render_indent r;
          r2 = render_verbatim (BOX_V @ '' '') (color ANSI_BRIGHT_BLACK r1);
          r3 = render_verbatim (format_3d (code_line_number r2)) (color ANSI_DIM r2);
          r4 = render_verbatim ('' '' @ BOX_V @ '' '') (color ANSI_BRIGHT_BLACK r3);
          r5 = color (ANSI_RESET @ ANSI_BG_BLACK @ ANSI_WHITE) r4;
          r6 = (if in_string r5 \<noteq> 0
                then render_verbatim (get_token_color TOKEN_STRING (flag_no_color r5)) r5
                else if in_comment r5 \<noteq> 0
                then render_verbatim (get_token_color TOKEN_COMMENT (flag_no_color r5)) r5
                else r5)
      in r6\<lparr>line_start := False, code_content_width := 0\<rparr>)"

definition render_code_line_suffix :: "int \<Rightarrow> MD_ANSI \<Rightarrow> MD_ANSI" where
  "render_code_line_suffix CODE_CONTENT_WIDTH r =
     (let padding_needed = CODE_CONTENT_WIDTH - code_content_width r;
          r1 = render_times padding_needed '' '' r;
          r2 = (if \<not> flag_no_color r1 then render_verbatim (ANSI_RESET @ ANSI_BRIGHT_BLACK) r1
                else r1);
          r3 = render_verbatim BOX_V r2;
          r4 = (if \<not> flag_no_color r3 then render_verbatim ANSI_RESET r3 else r3);
          r5 = render_newline r4;
          r6 = (if in_comment r5 = 1 then r5\<lparr>in_comment := 0\<rparr> else r5)
      in r6\<lparr>code_line_number := code_line_number r6 + 1\<rparr>)"

text \<open>
  The code block branch of \<open>text_callback\<close>.  \<open>scan_chunk\<close> is the loop that looks for
  the end of the chunk; the space left on the line is an \<open>int\<close> that the comparisons
  convert to \<open>unsigned\<close>.  \<open>chunk_actual_end\<close> is the choice of the end of the chunk,
  \<open>code_text_step\<close> one turn of the loop over the text.  The allocation of the copy of
  the chunk is taken to succeed.
\<close>

function scan_chunk :: "string \<Rightarrow> nat \<Rightarrow> nat \<Rightarrow> nat \<Rightarrow> nat \<Rightarrow> nat \<times> nat" where
  "scan_chunk text chunk_start line_space_left chunk_end last_word_boundary =
     (if chunk_end < length text \<and> chunk_end - chunk_start < line_space_left
      then (if text ! chunk_end = CHR 0x0A then (chunk_end, last_word_boundary)
            else scan_chunk text chunk_start line_space_left (chunk_end + 1)
                   (if md_is_word_boundary (text ! chunk_end) then chunk_end
                    else last_word_boundary))
      else (chunk_end, last_word_boundary))"
  by pat_completeness auto
termination
  by (relation "measure (\<lambda>(tx, chunk_start, line_space_left, chunk_end, lwb).
                   length tx - chunk_end)") auto

declare scan_chunk.simps [simp del]

definition to_unsigned :: "int \<Rightarrow> nat" where
  "to_unsigned n = (if n < 0 then nat (n + 2 ^ 32) else nat n)"

definition chunk_actual_end :: "string \<Rightarrow> nat \<Rightarrow> nat \<Rightarrow> nat" where
  "chunk_actual_end text chunk_start line_space_left =
     (case scan_chunk text chunk_start line_space_left chunk_start chunk_start of
        (chunk_end, last_word_boundary) \<Rightarrow>
          if length text \<le> chunk_end then length text
          else if text ! chunk_end = CHR 0x0A then chunk_end
          else if line_space_left \<le> chunk_end - chunk_start
          then (if chunk_start < last_word_boundary
                   \<and> last_word_boundary - chunk_start < line_space_left
                then last_word_boundary
                else chunk_start + line_space_left)
          else chunk_end)"

definition code_text_step :: "string \<Rightarrow> nat \<Rightarrow> MD_ANSI \<Rightarrow> nat \<times> MD_ANSI" where
  "code_text_step text i r =
     (let CODE_CONTENT_WIDTH = 40;
          r1 = (if line_start r then render_code_line_prefix r else r)
      in if text ! i = CHR 0x0A
         then (i + 1, render_code_line_suffix CODE_CONTENT_WIDTH r1)
         else
           (let chunk_start = i;
                line_space_left = to_unsigned (CODE_CONTENT_WIDTH - code_content_width r1);
                actual_end = chunk_actual_end text chunk_start line_space_left;
                chunk_len = actual_end - chunk_start;
                r2 = (if 0 < chunk_len
                      then highlight_code_line (take chunk_len (drop chunk_start text)) r1
                      else r1);
                i = actual_end;
                i = (if i < length text \<and> md_is_word_boundary (text ! i) \<and> text ! i \<noteq> CHR 0x0A
                        \<and> CODE_CONTENT_WIDTH \<le> code_content_width r2
                     then i + 1 else i)
            in (i, if CODE_CONTENT_WIDTH \<le> code_content_width r2
                      \<or> (i < length text \<and> text ! i = CHR 0x0A)
                   then render_code_line_suffix CODE_CONTENT_WIDTH r2 else r2)))"

text \<open>
  A turn of the loop either moves forward in the text or closes a full line, after which
  the next turn moves forward: the loop terminates.
\<close>

lemma scan_chunk_bounds:
  "scan_chunk tx s l e w = (e', w') \<Longrightarrow>
     e \<le> e' \<and> (e < length tx \<and> e - s < l \<and> tx ! e \<noteq> CHR 0x0A \<longrightarrow> e < e')"
proof (induction tx s l e w rule: scan_chunk.induct)
  case (1 tx s l e w)
  show ?case
  proof (cases "e < length tx \<and> e - s < l")
    case False
    with "1.prems" show ?thesis by (auto simp: scan_chunk.simps [of tx s l e])
  next
    case True
    show ?thesis
    proof (cases "tx ! e = CHR 0x0A")
      case nl: True
      with True "1.prems" show ?thesis by (simp add: scan_chunk.simps [of tx s l e])
    next
      case nonl: False
      from "1.prems" True nonl
      have "scan_chunk tx s l (e + 1) (if md_is_word_boundary (tx ! e) then e else w) = (e', w')"
        by (simp add: scan_chunk.simps [of tx s l e])
      from "1.IH" [OF True nonl this] show ?thesis by simp
    qed
  qed
qed

lemma chunk_actual_end_gt:
  assumes "i < length tx" and "tx ! i \<noteq> CHR 0x0A" and "0 < L"
  shows "i < chunk_actual_end tx i L"
proof -
  obtain ce lwb where sc: "scan_chunk tx i L i i = (ce, lwb)"
    by (cases "scan_chunk tx i L i i")
  from scan_chunk_bounds [OF sc] assms have "i < ce" by simp
  with assms sc show ?thesis by (auto simp: chunk_actual_end_def)
qed

lemma chunk_actual_end_0:
  assumes "i < length tx" and "tx ! i \<noteq> CHR 0x0A"
  shows "chunk_actual_end tx i 0 = i"
  using assms by (simp add: chunk_actual_end_def scan_chunk.simps [of tx i 0 i])

lemma line_start_suffix: "line_start (render_code_line_suffix w r)"
  by (simp add: render_code_line_suffix_def Let_def render_newline_def)

lemma width_prefix: "code_content_width (render_code_line_prefix r) = 0"
  by (simp add: render_code_line_prefix_def Let_def)

lemma code_text_step_progress:
  assumes i: "i < length tx"
  shows "i < fst (code_text_step tx i r)
       \<or> (fst (code_text_step tx i r) = i \<and> \<not> line_start r \<and> 40 \<le> code_content_width r
           \<and> line_start (snd (code_text_step tx i r)))"
proof (cases "tx ! i = CHR 0x0A")
  case True
  then show ?thesis by (simp add: code_text_step_def Let_def)
next
  case nonl: False
  define r1 where "r1 = (if line_start r then render_code_line_prefix r else r)"
  define L where "L = to_unsigned (40 - code_content_width r1)"
  show ?thesis
  proof (cases "L = 0")
    case False
    then have "i < chunk_actual_end tx i L"
      using chunk_actual_end_gt [OF i nonl] by simp
    then have "i < fst (code_text_step tx i r)"
      using nonl unfolding code_text_step_def Let_def r1_def L_def by simp
    then show ?thesis by simp
  next
    case True
    have w1: "40 \<le> code_content_width r1"
      using True by (auto simp: L_def to_unsigned_def split: if_splits)
    then have nls: "\<not> line_start r" and w: "40 \<le> code_content_width r"
      by (auto simp: r1_def width_prefix split: if_splits)
    have L0: "to_unsigned (40 - code_content_width r) = 0"
      using True nls by (simp add: L_def r1_def)
    show ?thesis
      using nonl nls w
      by (simp add: code_text_step_def Let_def L0 chunk_actual_end_0 [OF i nonl] line_start_suffix)
  qed
qed

lemma code_text_step_measure:
  assumes "(i', r') = code_text_step tx i r" and "i < length tx"
  shows "2 * (length tx - i') + (if \<not> line_start r' \<and> 40 \<le> code_content_width r' then 1 else 0)
       < 2 * (length tx - i) + (if \<not> line_start r \<and> 40 \<le> code_content_width r then 1 else 0)"
proof -
  have f: "fst (code_text_step tx i r) = i'" "snd (code_text_step tx i r) = r'"
    using assms(1) by (simp_all add: fst_def snd_def split: prod.splits) (metis fst_conv snd_conv)+
  from code_text_step_progress [OF assms(2), of r] assms(2) show ?thesis
    unfolding f by auto
qed

function code_text_loop :: "string \<Rightarrow> nat \<Rightarrow> MD_ANSI \<Rightarrow> MD_ANSI" where
  "code_text_loop text i r =
     (if i < length text
      then (case code_text_step text i r of (i', r') \<Rightarrow> code_text_loop text i' r')
      else r)"
  by pat_completeness auto
termination
proof (relation "measure (\<lambda>(tx, i, r). 2 * (length tx - i)
          + (if \<not> line_start r \<and> 40 \<le> code_content_width r then 1 else 0))", goal_cases)
  case 1
  show ?case by simp
next
  case (2 tx i r i' r')
  from code_text_step_measure [OF 2(2) 2(1)] show ?case by simp
qed

declare code_text_loop.simps [simp del]


text \<open>
  \<open>enter_block_callback\<close> and \<open>leave_block_callback\<close> for the block types of code blocks
  and tables.  The detail of a code block is its language attribute: \<open>None\<close> when the
  attribute has no text, otherwise the bytes \<open>render_attribute\<close> emits for it and its size.
  The detail of a table cell is its alignment.
\<close>

fun enter_block_callback :: "MD_BLOCKTYPE \<Rightarrow> MD_ANSI \<Rightarrow> MD_ANSI" where
  "enter_block_callback (MD_BLOCK_CODE lang) r =
     (let color = (\<lambda>s r. if \<not> flag_no_color r then render_verbatim s r else r);
          r1 = (if \<not> flag_compact r then render_newline r else r);
          r2 = (if line_start r1 then render_indent r1 else r1);
          r3 = render_verbatim (BOX_TL @ BOX_H) (color ANSI_BRIGHT_BLACK r2);
          r4 = (case lang of
                  None \<Rightarrow> r3
                | Some (lang_text, lang_size) \<Rightarrow>
                    render_verbatim ('' ]'' @ BOX_H)
                      (color ANSI_BRIGHT_BLACK
                         (render_verbatim lang_text (color ANSI_CYAN (render_verbatim ''[ '' r3)))));
          total_border_width = 47;
          used_width = (case lang of
                          None \<Rightarrow> 2
                        | Some (lang_text, lang_size) \<Rightarrow> 2 + (4 + int lang_size));
          r5 = render_times (total_border_width - used_width) BOX_H r4;
          r6 = render_newline (color ANSI_RESET (render_verbatim BOX_TR r5))
      in r6\<lparr>in_code_block := True, code_line_number := 1, code_content_width := 0,
            line_start := True, in_string := 0, in_comment := 0, string_escape_next := False\<rparr>)"
| "enter_block_callback MD_BLOCK_TABLE r =
     (let r1 = (if \<not> flag_compact r then render_newline r else r)
      in r1\<lparr>table_row := 0, table_column := 0, table_col_count := 0, table_row_count := 0,
            in_table := True, table_header_rows := 0,
            table_cols := (\<lambda>j. 0), table_aligns := (\<lambda>j. MD_ALIGN_DEFAULT),
            table_rows := (\<lambda>i. zero_row)\<rparr>)"
| "enter_block_callback MD_BLOCK_THEAD r = r\<lparr>in_table_header := True\<rparr>"
| "enter_block_callback MD_BLOCK_TBODY r = r\<lparr>in_table_header := False\<rparr>"
| "enter_block_callback MD_BLOCK_TR r = r\<lparr>table_column := 0\<rparr>"
| "enter_block_callback (MD_BLOCK_TH align) r =
     (let r1 = r\<lparr>table_cell_content := [], table_cell_length := 0\<rparr>
      in if table_column r1 < 64
         then r1\<lparr>table_aligns := (table_aligns r1)(nat (table_column r1) := align)\<rparr>
         else r1)"
| "enter_block_callback (MD_BLOCK_TD align) r =
     (let r1 = r\<lparr>table_cell_content := [], table_cell_length := 0\<rparr>
      in if table_column r1 < 64
         then r1\<lparr>table_aligns := (table_aligns r1)(nat (table_column r1) := align)\<rparr>
         else r1)"

text \<open>
  Leaving a table cell: \<open>strncpy\<close> copies the buffered text, up to its first NUL, into the
  cell of the current row and column.
\<close>

definition leave_cell :: "MD_ANSI \<Rightarrow> MD_ANSI" where
  "leave_cell r =
     (let r1 = (if table_row_count r < 128 \<and> table_column r < 64
                then (let i = nat (table_row_count r); j = nat (table_column r);
                          row = table_rows r i;
                          cell = \<lparr>cell_content = takeWhile (\<lambda>c. c \<noteq> CHR 0x00)
                                                   (take 255 (table_cell_content r)),
                                  cell_length = table_cell_length r,
                                  cell_align = (if table_column r < 64 then table_aligns r j
                                                else MD_ALIGN_LEFT)\<rparr>
                      in r\<lparr>table_rows := (table_rows r)
                             (i := row\<lparr>row_cells := (row_cells row)(j := cell)\<rparr>)\<rparr>)
                else r)
      in r1\<lparr>table_column := table_column r1 + 1\<rparr>)"

fun leave_block_callback :: "MD_BLOCKTYPE \<Rightarrow> MD_ANSI \<Rightarrow> md_error + MD_ANSI" where
  "leave_block_callback (MD_BLOCK_CODE lang) r =
     (let color = (\<lambda>s r. if \<not> flag_no_color r then render_verbatim s r else r);
          r1 = (if \<not> line_start r
                then (let CODE_CONTENT_WIDTH = 60;
                          padding_needed = CODE_CONTENT_WIDTH - code_content_width r
                      in render_newline
                           (color ANSI_RESET
                              (render_verbatim BOX_V
                                 (color (ANSI_RESET @ ANSI_BRIGHT_BLACK)
                                    (render_times padding_needed '' '' r)))))
                else r);
          r2 = (if line_start r1 then render_indent r1 else r1);
          r3 = render_newline
                 (color ANSI_RESET
                    (render_verbatim BOX_BR
                       (render_times 47 BOX_H
                          (render_verbatim BOX_BL (color ANSI_BRIGHT_BLACK r2)))));
          r4 = r3\<lparr>in_code_block := False, code_line_number := 0, code_content_width := 0,
                  in_string := 0, in_comment := 0, string_escape_next := False\<rparr>
      in Inr (if \<not> flag_compact r4 then render_newline r4 else r4))"
| "leave_block_callback MD_BLOCK_TABLE r =
     (case render_complete_table r of
        Inl e \<Rightarrow> Inl e
      | Inr r1 \<Rightarrow>
          (let r2 = r1\<lparr>in_table := False\<rparr>
           in Inr (if \<not> flag_compact r2 then render_newline r2 else r2)))"
| "leave_block_callback MD_BLOCK_THEAD r =
     Inr (if in_table_header r then r\<lparr>table_header_rows := table_row_count r\<rparr> else r)"
| "leave_block_callback MD_BLOCK_TBODY r = Inr r"
| "leave_block_callback MD_BLOCK_TR r =
     (let r1 = (if table_row_count r < 128
                then (let i = nat (table_row_count r)
                      in r\<lparr>table_rows := (table_rows r)
                             (i := (table_rows r i)\<lparr>cell_count := table_column r\<rparr>),
                           table_row_count := table_row_count r + 1\<rparr>)
                else r)
      in Inr (r1\<lparr>table_row := table_row r1 + 1\<rparr>))"
| "leave_block_callback (MD_BLOCK_TH align) r = Inr (leave_cell r)"
| "leave_block_callback (MD_BLOCK_TD align) r = Inr (leave_cell r)"

text \<open>
  \<open>text_callback\<close>: text inside a table is buffered into the current cell, text inside a
  code block is wrapped at 40 columns and highlighted.  Text outside of both is not part
  of this model.
\<close>

definition text_callback :: "MD_TEXTTYPE \<Rightarrow> string \<Rightarrow> MD_ANSI \<Rightarrow> md_error + MD_ANSI" where
  "text_callback type text r =
     (if in_table r \<and> (type = MD_TEXT_NORMAL \<or> type = MD_TEXT_ENTITY)
      then Inr (if type = MD_TEXT_ENTITY
                then (if text = ''&lt;'' then add_to_table_cell_buffer ''<'' r
                      else if text = ''&gt;'' then add_to_table_cell_buffer ''>'' r
                      else if text = ''&amp;'' then add_to_table_cell_buffer ''&'' r
                      else if text = ''&quot;'' then add_to_table_cell_buffer [CHR 0x22] r
                      else if text = ''&nbsp;'' then add_to_table_cell_buffer '' '' r
                      else add_to_table_cell_buffer text r)
                else add_to_table_cell_buffer text r)
      else if in_code_block r
      then (if type = MD_TEXT_BR \<or> type = MD_TEXT_SOFTBR then Inr (render_newline r)
            else Inr (code_text_loop text 0 r))
      else Inl Not_Modelled)"

text \<open>The calls the parser makes, in order.\<close>

datatype md_event = Enter MD_BLOCKTYPE | Leave MD_BLOCKTYPE | Text MD_TEXTTYPE string

fun step_event :: "md_event \<Rightarrow> MD_ANSI \<Rightarrow> md_error + MD_ANSI" where
  "step_event (Enter b) r = Inr (enter_block_callback b r)"
| "step_event (Leave b) r = leave_block_callback b r"
| "step_event (Text ty tx) r = text_callback ty tx r"

fun run_events :: "md_event list \<Rightarrow> MD_ANSI \<Rightarrow> md_error + MD_ANSI" where
  "run_events [] r = Inr r"
| "run_events (e # es) r =
     (case step_event e r of Inl err \<Rightarrow> Inl err | Inr r1 \<Rightarrow> run_events es r1)"

text \<open>
  Modelled from the spec: the parser is missing from the sources.  These are the calls of
  its document walk for the table with the header row \<open>a\<close>, \<open>bbbb\<close> and the body row
  \<open>cc\<close>, \<open>d\<close>, both columns without declared alignment: head and body, their rows, the
  cells of the rows and the text of the cells, each entered and left in turn, up to but not
  including the call that closes the table block.
\<close>

definition demo_table :: "md_event list" where
  "demo_table =
     [Enter MD_BLOCK_TABLE, Enter MD_BLOCK_THEAD, Enter MD_BLOCK_TR,
      Enter (MD_BLOCK_TH MD_ALIGN_DEFAULT), Text MD_TEXT_NORMAL ''a'',
      Leave (MD_BLOCK_TH MD_ALIGN_DEFAULT),
      Enter (MD_BLOCK_TH MD_ALIGN_DEFAULT), Text MD_TEXT_NORMAL ''bbbb'',
      Leave (MD_BLOCK_TH MD_ALIGN_DEFAULT),
      Leave MD_BLOCK_TR, Leave MD_BLOCK_THEAD, Enter MD_BLOCK_TBODY, Enter MD_BLOCK_TR,
      Enter (MD_BLOCK_TD MD_ALIGN_DEFAULT), Text MD_TEXT_NORMAL ''cc'',
      Leave (MD_BLOCK_TD MD_ALIGN_DEFAULT),
      Enter (MD_BLOCK_TD MD_ALIGN_DEFAULT), Text MD_TEXT_NORMAL ''d'',
      Leave (MD_BLOCK_TD MD_ALIGN_DEFAULT),
      Leave MD_BLOCK_TR, Leave MD_BLOCK_TBODY]"

text \<open>What is read off a renderer: the widths of the first three columns, the column count, the output.\<close>

definition table_view :: "md_error + MD_ANSI \<Rightarrow> md_error + int list \<times> int \<times> string" where
  "table_view res = map_sum id (\<lambda>r. (map (table_cols r) [0..<3], table_col_count r, emitted r)) res"

text \<open>What is read off a renderer in a code block: the lexer state and the output.\<close>

definition lexer_view :: "md_error + MD_ANSI \<Rightarrow> md_error + nat \<times> nat \<times> bool \<times> string" where
  "lexer_view res =
     map_sum id (\<lambda>r. (in_string r, in_comment r, string_escape_next r, emitted r)) res"

text \<open>
  The output of a coloured, non-compact renderer up to the first byte of code of a code
  block without language attribute: the blank line, the top border and the prefix of
  line 1.
\<close>

definition code_frame :: string where
  "code_frame =
     emitted (render_code_line_prefix
                (enter_block_callback (MD_BLOCK_CODE None) (md_ansi_init False False)))"

section \<open>Producers running concurrently\<close>

text \<open>
  Several threads call \<open>queue_message_update\<close> at once.  Here the queue mutex is part of
  the state, and a call is run statement by statement.

  \<open>link_update\<close> is the part of \<open>queue_message_update\<close> between locking and unlocking: the
  node is linked behind the tail, or becomes head and tail of an empty queue.
\<close>

definition link_update :: "message_update_t \<Rightarrow> app_t \<Rightarrow> app_t" where
  "link_update update app =
     (if update_queue app \<noteq> []
      then app\<lparr>update_queue := update_queue app @ [update]\<rparr>
      else app\<lparr>update_queue := [update]\<rparr>)"

text \<open>
  A call is the tuple of its arguments.  A thread is at one of four places: outside of a
  call (\<open>Idle\<close>); in a call with the update created, before \<open>pthread_mutex_lock\<close>
  (\<open>Created\<close>); holding the mutex, before the node is linked (\<open>Locked\<close>); and with the node
  linked, before \<open>pthread_cond_signal\<close> and \<open>pthread_mutex_unlock\<close> (\<open>Linked\<close>).  The local
  variable \<open>update\<close> is carried by the place.  \<open>pending\<close> are the calls the thread has still
  to make.
\<close>

type_synonym call_t = "nat option \<times> string option \<times> bool \<times> tool_execution_t list"

datatype thread_pc =
  Idle | Created message_update_t | Locked message_update_t | Linked

record thread_t =
  pending :: "call_t list"
  at :: thread_pc

text \<open>
  The state shared by the threads: the store with the queue, and the holder of the queue
  mutex, \<open>None\<close> when it is free.  \<open>linked_by\<close> is not part of the C state: it records, for
  each node linked so far and in the order of linking, the thread that linked it.
\<close>

record system_t =
  shared :: app_t
  mutex :: "nat option"
  threads :: "thread_t list"
  linked_by :: "nat list"

definition create_call :: "call_t \<Rightarrow> message_update_t" where
  "create_call call =
     (case call of (msg, content', is_streaming', tool_executions') \<Rightarrow>
        create_message_update msg content' is_streaming' tool_executions')"

text \<open>
  One turn of thread \<open>t\<close>.  A thread outside of a call starts its next call and creates the
  update; a thread without a call left does nothing.  \<open>pthread_mutex_lock\<close> takes the mutex
  when it is free; otherwise the thread waits, and its turn changes nothing.
\<close>

definition thread_step :: "nat \<Rightarrow> system_t \<Rightarrow> system_t" where
  "thread_step t s =
     (if t < length (threads s)
      then (let th = threads s ! t in
            case at th of
              Idle \<Rightarrow>
                (case pending th of
                   [] \<Rightarrow> s
                 | call # rest \<Rightarrow>
                     s\<lparr>threads := (threads s)
                         [t := \<lparr>pending = rest, at = Created (create_call call)\<rparr>]\<rparr>)
            | Created update \<Rightarrow>
                (if mutex s = None
                 then s\<lparr>mutex := Some t, threads := (threads s)[t := th\<lparr>at := Locked update\<rparr>]\<rparr>
                 else s)
            | Locked update \<Rightarrow>
                s\<lparr>shared := link_update update (shared s),
                  linked_by := linked_by s @ [t],
                  threads := (threads s)[t := th\<lparr>at := Linked\<rparr>]\<rparr>
            | Linked \<Rightarrow>
                s\<lparr>mutex := None, threads := (threads s)[t := th\<lparr>at := Idle\<rparr>]\<rparr>)
      else s)"

text \<open>
  A schedule is the list of the threads in the order of their turns.
\<close>

definition run_schedule :: "nat list \<Rightarrow> system_t \<Rightarrow> system_t" where
  "run_schedule schedule s = fold thread_step schedule s"

text \<open>
  The threads before their first call, and the state in which every thread has returned
  from its last call.
\<close>

definition start_threads :: "app_t \<Rightarrow> call_t list list \<Rightarrow> system_t" where
  "start_threads app calls =
     \<lparr>shared = app, mutex = None,
      threads = map (\<lambda>cs. \<lparr>pending = cs, at = Idle\<rparr>) calls, linked_by = []\<rparr>"

definition all_returned :: "system_t \<Rightarrow> bool" where
  "all_returned s \<longleftrightarrow> list_all (\<lambda>th. pending th = [] \<and> at th = Idle) (threads s)"

text \<open>
  The updates in the queue that thread \<open>t\<close> has linked, in queue order; the update a thread
  has created and not yet linked; and whether a thread is between lock and unlock.
\<close>

definition linked_of :: "nat \<Rightarrow> system_t \<Rightarrow> message_update_t list" where
  "linked_of t s =
     map snd (filter (\<lambda>(p, u). p = t) (zip (linked_by s) (update_queue (shared s))))"

definition in_flight :: "thread_pc \<Rightarrow> message_update_t list" where
  "in_flight p = (case p of Created u \<Rightarrow> [u] | Locked u \<Rightarrow> [u] | _ \<Rightarrow> [])"

definition in_critical_section :: "thread_pc \<Rightarrow> bool" where
  "in_critical_section p = (case p of Locked u \<Rightarrow> True | Linked \<Rightarrow> True | _ \<Rightarrow> False)"

text \<open>
  What holds in every state the threads can reach, for the calls \<open>calls ! t\<close> of thread
  \<open>t\<close>: every node has its thread recorded; the updates a thread has linked, the one it is
  about to link and those of the calls it has still to make are together the updates of its
  calls, in the order of the calls; and the thread between lock and unlock is the holder of
  the mutex.
\<close>

definition queue_invariant :: "call_t list list \<Rightarrow> system_t \<Rightarrow> bool" where
  "queue_invariant calls s \<longleftrightarrow>
     length (threads s) = length calls
     \<and> length (linked_by s) = length (update_queue (shared s))
     \<and> set (linked_by s) \<subseteq> {..<length calls}
     \<and> (\<forall>t<length calls.
           linked_of t s @ in_flight (at (threads s ! t))
             @ map create_call (pending (threads s ! t)) = map create_call (calls ! t))
     \<and> (\<forall>t<length calls. in_critical_section (at (threads s ! t)) \<longleftrightarrow> mutex s = Some t)
     \<and> (\<forall>h. mutex s = Some h \<longrightarrow> h < length calls)"


text \<open>
  The schedule in which the threads run one after the other, each for the four turns of
  every call it makes.
\<close>

definition sequential_schedule :: "call_t list list \<Rightarrow> nat list" where
  "sequential_schedule calls =
     concat (map (\<lambda>t. replicate (4 * length (calls ! t)) t) [0..<length calls])"


text \<open>
  Two threads, the first with two calls and the second with one, and a schedule in which
  their calls overlap: each thread once waits while the other holds the mutex.
\<close>

definition demo_calls :: "call_t list list" where
  "demo_calls =
     [[(Some 0, Some ''a1'', True, []), (Some 0, Some ''a2'', False, [])],
      [(Some 1, Some ''b1'', True, [])]]"

definition demo_schedule :: "nat list" where
  "demo_schedule = [0, 1, 0, 1, 0, 0, 1, 1, 0, 0, 1, 0, 0, 0]"


section \<open>Properties of the streaming session\<close>

lemma clone_tool_executions_id: "clone_tool_executions ts = ts"
  by (induction ts) auto

lemma deliver_append: "deliver (xs @ ys) app = deliver ys (deliver xs app)"
  by (induction xs arbitrary: app) auto

lemma deliver_chunks_snoc:
  "deliver_chunks (cs @ [c]) app = streaming_callback True (Some c) (deliver_chunks cs app)"
  by (simp add: deliver_chunks_def deliver_append)

text \<open>One successful chunk on a buffer whose recorded length is the length of its text.\<close>

lemma streaming_callback_chunk_ok:
  assumes "accumulated_text (streaming app) = Some t"
      and "accumulated_length (streaming app) = length t"
      and "current_streaming app = Some m"
  shows "accumulated_text (streaming (streaming_callback True (Some c) app)) = Some (t @ c)"
    and "accumulated_length (streaming (streaming_callback True (Some c) app)) = length (t @ c)"
    and "current_streaming (streaming_callback True (Some c) app) = Some m"
    and "update_queue (streaming_callback True (Some c) app) =
           update_queue app @ [create_message_update (Some m) (Some (t @ c)) True []]"
    and "messages (streaming_callback True (Some c) app) = messages app"
    and "active (streaming (streaming_callback True (Some c) app)) = active (streaming app)"
  using assms
  by (simp_all add: streaming_callback_def queue_message_update_def buffer_bytes_def Let_def)

lemma deliver_chunks_run:
  assumes "accumulated_text (streaming app) = Some t"
      and "accumulated_length (streaming app) = length t"
      and "current_streaming app = Some m"
  shows "accumulated_text (streaming (deliver_chunks cs app)) = Some (t @ concat cs)
       \<and> accumulated_length (streaming (deliver_chunks cs app)) = length (t @ concat cs)
       \<and> current_streaming (deliver_chunks cs app) = Some m
       \<and> update_queue (deliver_chunks cs app) =
           update_queue app @
           map (\<lambda>k. create_message_update (Some m) (Some (t @ concat (take (Suc k) cs))) True [])
             [0..<length cs]"
proof (induction cs rule: rev_induct)
  case Nil
  show ?case using assms by (simp add: deliver_chunks_def)
next
  case (snoc c cs)
  let ?a = "deliver_chunks cs app"
  from snoc have t: "accumulated_text (streaming ?a) = Some (t @ concat cs)"
    and l: "accumulated_length (streaming ?a) = length (t @ concat cs)"
    and m: "current_streaming ?a = Some m"
    and q: "update_queue ?a = update_queue app @
           map (\<lambda>k. create_message_update (Some m) (Some (t @ concat (take (Suc k) cs))) True [])
             [0..<length cs]"
    by simp_all
  have pre: "map (\<lambda>k. create_message_update (Some m)
                       (Some (t @ concat (take (Suc k) (cs @ [c])))) True [])
               [0..<length cs]
           = map (\<lambda>k. create_message_update (Some m) (Some (t @ concat (take (Suc k) cs))) True [])
               [0..<length cs]"
    by (rule map_cong) auto
  show ?case
    unfolding deliver_chunks_snoc
    using streaming_callback_chunk_ok [OF t l m, of c] q pre
    by simp
qed

lemma fold_add_message_frame:
  "streaming (fold (add_message ty) es app) = streaming app"
  "current_streaming (fold (add_message ty) es app) = current_streaming app"
  "update_queue (fold (add_message ty) es app) = update_queue app"
  by (induction es arbitrary: app) (simp_all add: add_message_def)

lemma start_streaming_response_state:
  "accumulated_text (streaming (start_streaming_response sid err app)) = Some []"
  "accumulated_length (streaming (start_streaming_response sid err app)) = 0"
  "current_streaming (start_streaming_response sid err app) = Some (length (messages app))"
  by (simp_all add: start_streaming_response_def fold_add_message_frame add_message_def Let_def
        queue_message_update_def)

lemma demo_session_simps:
  "accumulated_text (streaming demo_session) = Some ''Hel''"
  "accumulated_length (streaming demo_session) = 3"
  "current_streaming demo_session = Some 0"
  "update_queue demo_session = [\<lparr>target_message = Some 0, new_content = Some ''Hel'',
        upd_is_streaming = True, new_tool_executions = [], process_markdown = True\<rparr>]"
  "active (streaming demo_session)"
  by (simp_all add: demo_session_def deliver_chunks_def start_streaming_response_def init_app_def
      AI_INVALID_ID_def add_message_def streaming_callback_def queue_message_update_def
      create_message_update_def buffer_bytes_def Let_def)

text \<open>
  Claim C1.  After \<open>start_streaming_response\<close>, let the chunks \<open>cs\<close> be delivered in order,
  every reallocation succeeding, and then the terminating \<open>NULL\<close>.  The accumulation buffer
  then holds the concatenation of the chunks; the \<open>k\<close>-th chunk has enqueued, behind what
  was queued before, an update with the streaming flag set whose content is the whole text
  accumulated so far (the concatenation of the first \<open>k + 1\<close> chunks, not the chunk alone);
  and the terminating call enqueues one more update, with the streaming flag cleared, whose
  content is exactly the concatenation of all chunks in delivery order.
\<close>

theorem streaming_chunks_concatenate:
  "accumulated_text (streaming (deliver_chunks cs (start_streaming_response sid err app)))
     = Some (concat cs)
   \<and> update_queue (deliver_chunks cs (start_streaming_response sid err app))
     = update_queue (start_streaming_response sid err app) @
       map (\<lambda>k. \<lparr>target_message = Some (length (messages app)),
                  new_content = Some (concat (take (Suc k) cs)),
                  upd_is_streaming = True, new_tool_executions = [],
                  process_markdown = True\<rparr>) [0..<length cs]
   \<and> update_queue (streaming_callback ok None
         (deliver_chunks cs (start_streaming_response sid err app)))
     = update_queue (deliver_chunks cs (start_streaming_response sid err app)) @
       [\<lparr>target_message = Some (length (messages app)),
         new_content = Some (concat cs),
         upd_is_streaming = False, new_tool_executions = [],
         process_markdown = True\<rparr>]"
proof -
  let ?s0 = "start_streaming_response sid err app"
  let ?m = "length (messages app)"
  have run: "accumulated_text (streaming (deliver_chunks cs ?s0)) = Some ([] @ concat cs)
       \<and> accumulated_length (streaming (deliver_chunks cs ?s0)) = length ([] @ concat cs)
       \<and> current_streaming (deliver_chunks cs ?s0) = Some ?m
       \<and> update_queue (deliver_chunks cs ?s0) =
           update_queue ?s0 @
           map (\<lambda>k. create_message_update (Some ?m) (Some ([] @ concat (take (Suc k) cs))) True [])
             [0..<length cs]"
    by (rule deliver_chunks_run) (simp_all add: start_streaming_response_state)
  then have fin: "update_queue (streaming_callback ok None (deliver_chunks cs ?s0))
      = update_queue (deliver_chunks cs ?s0) @
        [create_message_update (Some ?m) (Some (concat cs)) False []]"
    by (simp add: streaming_callback_def queue_message_update_def Let_def)
  from run fin show ?thesis
    by (simp add: create_message_update_def)
qed

text \<open>
  Claim C8.  When \<open>realloc\<close> fails on a chunk, the accumulated text, its recorded length and
  the active flag stay as they were and nothing is enqueued; the next chunk whose
  reallocation succeeds is appended to the text accumulated before the dropped chunk, and
  its update carries that text.  The recorded length is assumed to be the length of the
  buffered text, as it is in every state the program reaches.
\<close>

theorem realloc_failure_drops_chunk:
  assumes "accumulated_length (streaming app)
             = length (buffer_bytes (accumulated_text (streaming app)))"
  shows "accumulated_text (streaming (streaming_callback False (Some c) app))
           = accumulated_text (streaming app)
       \<and> accumulated_length (streaming (streaming_callback False (Some c) app))
           = accumulated_length (streaming app)
       \<and> active (streaming (streaming_callback False (Some c) app)) = active (streaming app)
       \<and> update_queue (streaming_callback False (Some c) app) = update_queue app
       \<and> accumulated_text (streaming
             (streaming_callback True (Some c') (streaming_callback False (Some c) app)))
           = Some (buffer_bytes (accumulated_text (streaming app)) @ c')
       \<and> accumulated_length (streaming
             (streaming_callback True (Some c') (streaming_callback False (Some c) app)))
           = accumulated_length (streaming app) + length c'
       \<and> update_queue
             (streaming_callback True (Some c') (streaming_callback False (Some c) app))
           = (case current_streaming app of
                None \<Rightarrow> update_queue app
              | Some m \<Rightarrow> update_queue app @
                  [\<lparr>target_message = Some m,
                    new_content = Some (buffer_bytes (accumulated_text (streaming app)) @ c'),
                    upd_is_streaming = True, new_tool_executions = [],
                    process_markdown = True\<rparr>])"
  using assms
  by (simp add: streaming_callback_def queue_message_update_def create_message_update_def
        Let_def split: option.split)

theorem realloc_failure_drops_chunk_witness:
  "accumulated_length (streaming demo_session)
       = length (buffer_bytes (accumulated_text (streaming demo_session)))
   \<and> accumulated_text (streaming (streaming_callback False (Some ''XX'') demo_session))
       = Some ''Hel''
   \<and> update_queue (streaming_callback False (Some ''XX'') demo_session)
       = update_queue demo_session
   \<and> accumulated_text (streaming
         (streaming_callback True (Some ''lo'')
            (streaming_callback False (Some ''XX'') demo_session)))
       = Some ''Hello''"
  using realloc_failure_drops_chunk [of demo_session "''XX''" "''lo''"]
  by (simp add: demo_session_simps buffer_bytes_def)

text \<open>
  Claim C2, as amended.  The ESC branch resets the session at once, whatever the
  collaborator answered: the active flag is cleared, the stream identifier invalidated and
  the buffer freed.  Whatever callbacks \<open>stale\<close> arrive between the cancellation and the
  next start, that start leaves an empty buffer of recorded length 0.  A callback of the
  cancelled stream that arrives after the new start is not told apart from the new
  stream's: its chunk is appended to the new session's buffer.
\<close>

theorem cancel_then_start_resets_buffer:
  "\<not> active (streaming (handle_input_ESC note app))
   \<and> stream_id (streaming (handle_input_ESC note app)) = AI_INVALID_ID
   \<and> accumulated_text (streaming (handle_input_ESC note app)) = None
   \<and> accumulated_length (streaming (handle_input_ESC note app)) = 0
   \<and> accumulated_text (streaming
        (start_streaming_response sid err (deliver stale (handle_input_ESC note app)))) = Some []
   \<and> accumulated_length (streaming
        (start_streaming_response sid err (deliver stale (handle_input_ESC note app)))) = 0
   \<and> accumulated_text (streaming (streaming_callback True (Some late)
        (start_streaming_response sid err (deliver stale (handle_input_ESC note app)))))
      = Some late"
proof -
  let ?s = "start_streaming_response sid err (deliver stale (handle_input_ESC note app))"
  have "accumulated_text (streaming (streaming_callback True (Some late) ?s)) = Some ([] @ late)"
    by (rule streaming_callback_chunk_ok(1)) (simp_all add: start_streaming_response_state)
  moreover have "\<not> active (streaming (handle_input_ESC note app))
      \<and> stream_id (streaming (handle_input_ESC note app)) = AI_INVALID_ID
      \<and> accumulated_text (streaming (handle_input_ESC note app)) = None
      \<and> accumulated_length (streaming (handle_input_ESC note app)) = 0"
    by (simp add: handle_input_ESC_def Let_def split: option.split)
  ultimately show ?thesis
    by (simp add: start_streaming_response_state)
qed

text \<open>
  The claim as stated fails: the stream of \<open>demo_session\<close> is cancelled, a new session is
  started with an empty buffer, and a late chunk of the cancelled stream then lands in the
  new session's buffer.
\<close>

theorem stale_callback_counterexample:
  "accumulated_text (streaming
     (start_streaming_response 2 []
        (handle_input_ESC ''Generation cancelled by user'' demo_session))) = Some []
   \<and> accumulated_text (streaming
     (streaming_callback True (Some ''late'')
       (start_streaming_response 2 []
         (handle_input_ESC ''Generation cancelled by user'' demo_session))))
     = Some ''late''"
proof -
  let ?s = "start_streaming_response 2 []
              (handle_input_ESC ''Generation cancelled by user'' demo_session)"
  have "accumulated_text (streaming (streaming_callback True (Some ''late'') ?s))
          = Some ([] @ ''late'')"
    by (rule streaming_callback_chunk_ok(1)) (simp_all add: start_streaming_response_state)
  then show ?thesis by (simp add: start_streaming_response_state)
qed

section \<open>Properties of the update queue\<close>

lemma apply_updates_append:
  "apply_updates md layout (us @ vs) msgs
     = apply_updates md layout vs (apply_updates md layout us msgs)"
  by (induction us arbitrary: msgs) auto

lemma length_apply_updates: "length (apply_updates md layout us msgs) = length msgs"
  by (induction us arbitrary: msgs) (auto split: option.split)

lemma apply_update_fields:
  "is_streaming (apply_update md layout u m) = upd_is_streaming u"
  "content (apply_update md layout u m)
     = (case new_content u of None \<Rightarrow> content m | Some c \<Rightarrow> Some c)"
  "tool_executions (apply_update md layout u m)
     = (if new_tool_executions u = [] then tool_executions m else new_tool_executions u)"
  by (auto simp: apply_update_def render_markdown_lines_def Let_def clone_tool_executions_id
      split: option.split)

text \<open>
  After a batch, each field of a message is what the last update of the batch that targets
  the message and overwrites that field wrote; a field no update overwrites is unchanged.
\<close>

lemma apply_updates_last_wins:
  assumes "p < length msgs"
  shows "is_streaming (apply_updates md layout q msgs ! p)
           = (case find (\<lambda>u. target_message u = Some p) (rev q) of
                None \<Rightarrow> is_streaming (msgs ! p) | Some u \<Rightarrow> upd_is_streaming u)
       \<and> content (apply_updates md layout q msgs ! p)
           = (case find (\<lambda>u. target_message u = Some p \<and> new_content u \<noteq> None) (rev q) of
                None \<Rightarrow> content (msgs ! p) | Some u \<Rightarrow> new_content u)
       \<and> tool_executions (apply_updates md layout q msgs ! p)
           = (case find (\<lambda>u. target_message u = Some p \<and> new_tool_executions u \<noteq> [])
                     (rev q) of
                None \<Rightarrow> tool_executions (msgs ! p) | Some u \<Rightarrow> new_tool_executions u)"
proof (induction q rule: rev_induct)
  case Nil
  show ?case by simp
next
  case (snoc u q)
  let ?ms = "apply_updates md layout q msgs"
  have len: "p < length ?ms" using assms by (simp add: length_apply_updates)
  show ?case
  proof (cases "target_message u")
    case None
    with snoc show ?thesis by (simp add: apply_updates_append)
  next
    case (Some r)
    show ?thesis
    proof (cases "r = p")
      case True
      with Some snoc len show ?thesis
        by (auto simp: apply_updates_append apply_update_fields split: option.split)
    next
      case False
      with Some snoc len show ?thesis
        by (simp add: apply_updates_append)
    qed
  qed
qed

lemma demo_queue_simps:
  "length (messages demo_queue) = 1"
  "update_queue demo_queue =
     [\<lparr>target_message = Some 0, new_content = Some ''Hel'', upd_is_streaming = True,
       new_tool_executions = [], process_markdown = True\<rparr>,
      \<lparr>target_message = Some 0, new_content = None, upd_is_streaming = True,
       new_tool_executions =
         [\<lparr>tool_name = Some ''ls'', parameters = Some ''{}'', response = None\<rparr>],
       process_markdown = False\<rparr>,
      \<lparr>target_message = Some 0, new_content = Some ''Hello'', upd_is_streaming = False,
       new_tool_executions = [], process_markdown = True\<rparr>]"
  by (simp_all add: demo_queue_def start_streaming_response_def init_app_def
      AI_INVALID_ID_def add_message_def queue_message_update_def
      create_message_update_def Let_def)

text \<open>
  Claim C3.  \<open>queue_message_update\<close> puts the update at the tail of the queue.  The locked
  part of \<open>process_message_updates\<close> hands over the queued list and leaves the queue empty;
  the updates are then applied to the message store one after the other in queue order.
  For a message \<open>p\<close> of the store, after the batch: the streaming flag is that of the last
  update targeting \<open>p\<close>; the content is that of the last update targeting \<open>p\<close> that carries
  content; the tool executions are those of the last update targeting \<open>p\<close> that carries tool
  executions; a field that no update of the batch overwrites keeps its value.
\<close>

theorem updates_applied_in_enqueue_order:
  assumes "p < length (messages app)"
  shows "update_queue (queue_message_update msg c s t app)
           = update_queue app @ [create_message_update msg c s t]
       \<and> detach_updates app = (update_queue app, app\<lparr>update_queue := []\<rparr>)
       \<and> update_queue (process_message_updates md layout app) = []
       \<and> messages (process_message_updates md layout (queue_message_update msg c s t app))
           = apply_updates md layout [create_message_update msg c s t]
               (messages (process_message_updates md layout app))
       \<and> is_streaming (messages (process_message_updates md layout app) ! p)
           = (case find (\<lambda>u. target_message u = Some p) (rev (update_queue app)) of
                None \<Rightarrow> is_streaming (messages app ! p)
              | Some u \<Rightarrow> upd_is_streaming u)
       \<and> content (messages (process_message_updates md layout app) ! p)
           = (case find (\<lambda>u. target_message u = Some p \<and> new_content u \<noteq> None)
                     (rev (update_queue app)) of
                None \<Rightarrow> content (messages app ! p)
              | Some u \<Rightarrow> new_content u)
       \<and> tool_executions (messages (process_message_updates md layout app) ! p)
           = (case find (\<lambda>u. target_message u = Some p \<and> new_tool_executions u \<noteq> [])
                     (rev (update_queue app)) of
                None \<Rightarrow> tool_executions (messages app ! p)
              | Some u \<Rightarrow> new_tool_executions u)"
proof -
  have enq: "update_queue (queue_message_update msg c s t app)
           = update_queue app @ [create_message_update msg c s t]"
    by (simp add: queue_message_update_def Let_def)
  have msgs: "messages (queue_message_update msg c s t app) = messages app"
    by (simp add: queue_message_update_def Let_def)
  have proc: "messages (process_message_updates md layout a)
                = apply_updates md layout (update_queue a) (messages a)" for a
    by (simp add: process_message_updates_def detach_updates_def)
  have order: "messages (process_message_updates md layout (queue_message_update msg c s t app))
           = apply_updates md layout [create_message_update msg c s t]
               (messages (process_message_updates md layout app))"
    by (simp only: proc enq msgs apply_updates_append)
  from apply_updates_last_wins [OF assms, of md layout "update_queue app"] enq order
  show ?thesis
    by (simp add: proc) (simp add: process_message_updates_def detach_updates_def)
qed

theorem updates_applied_in_enqueue_order_witness:
  "0 < length (messages demo_queue)
   \<and> update_queue (process_message_updates Some (\<lambda>m s. []) demo_queue) = []
   \<and> is_streaming (messages (process_message_updates Some (\<lambda>m s. []) demo_queue) ! 0) = False
   \<and> content (messages (process_message_updates Some (\<lambda>m s. []) demo_queue) ! 0)
       = Some ''Hello''
   \<and> tool_executions (messages (process_message_updates Some (\<lambda>m s. []) demo_queue) ! 0)
       = [\<lparr>tool_name = Some ''ls'', parameters = Some ''{}'', response = None\<rparr>]"
  using updates_applied_in_enqueue_order
          [of 0 demo_queue None None False "[]" Some "\<lambda>m s. []"]
  by (simp add: demo_queue_simps)

section \<open>Properties of the queue under concurrent producers\<close>

lemma in_flight_simps [simp]:
  "in_flight Idle = []" "in_flight (Created u) = [u]" "in_flight (Locked u) = [u]"
  "in_flight Linked = []"
  by (simp_all add: in_flight_def)

lemma in_critical_section_simps [simp]:
  "\<not> in_critical_section Idle" "\<not> in_critical_section (Created u)"
  "in_critical_section (Locked u)" "in_critical_section Linked"
  by (simp_all add: in_critical_section_def)

lemma queue_message_update_link:
  "queue_message_update msg c st tools app = link_update (create_message_update msg c st tools) app"
  by (simp add: queue_message_update_def link_update_def Let_def)

lemma update_queue_link: "update_queue (link_update u app) = update_queue app @ [u]"
  by (simp add: link_update_def)

lemma queue_invariant_start:
  "update_queue app = [] \<Longrightarrow> queue_invariant calls (start_threads app calls)"
  by (simp add: queue_invariant_def start_threads_def linked_of_def)

lemma linked_of_link:
  assumes "length (linked_by s) = length (update_queue (shared s))"
  shows "linked_of t' (s\<lparr>shared := link_update u (shared s), linked_by := linked_by s @ [t]\<rparr>)
         = linked_of t' s @ (if t' = t then [u] else [])"
  using assms by (simp add: linked_of_def update_queue_link)

lemma linked_of_threads [simp]:
  "linked_of t' (s\<lparr>threads := ths\<rparr>) = linked_of t' s"
  "linked_of t' (s\<lparr>mutex := m\<rparr>) = linked_of t' s"
  by (simp_all add: linked_of_def)

lemma queue_invariant_step:
  assumes inv: "queue_invariant calls s"
  shows "queue_invariant calls (thread_step t s)"
proof (cases "t < length (threads s)")
  case False
  with inv show ?thesis by (simp add: thread_step_def)
next
  case True
  from inv have len: "length (threads s) = length calls"
    and tags: "length (linked_by s) = length (update_queue (shared s))"
    and sub: "set (linked_by s) \<subseteq> {..<length calls}"
    and seqs: "\<And>t. t < length calls \<Longrightarrow>
           linked_of t s @ in_flight (at (threads s ! t))
             @ map create_call (pending (threads s ! t)) = map create_call (calls ! t)"
    and excl: "\<And>t. t < length calls \<Longrightarrow>
           in_critical_section (at (threads s ! t)) \<longleftrightarrow> mutex s = Some t"
    and holder: "\<And>h. mutex s = Some h \<Longrightarrow> h < length calls"
    by (simp_all add: queue_invariant_def)
  from True len have t: "t < length calls" by simp
  show ?thesis
  proof (cases "at (threads s ! t)")
    case Idle
    show ?thesis
    proof (cases "pending (threads s ! t)")
      case Nil
      with Idle True inv show ?thesis by (simp add: thread_step_def)
    next
      case (Cons call rest)
      have step: "thread_step t s =
          s\<lparr>threads := (threads s)[t := \<lparr>pending = rest, at = Created (create_call call)\<rparr>]\<rparr>"
        using True Idle Cons by (simp add: thread_step_def)
      show ?thesis
        unfolding step queue_invariant_def
        using len tags sub holder t seqs [OF t] excl [OF t] Idle Cons
        by (auto simp add: nth_list_update seqs excl)
    qed
  next
    case (Created u)
    show ?thesis
    proof (cases "mutex s = None")
      case False
      with Created True inv show ?thesis by (auto simp add: thread_step_def)
    next
      case free: True
      have step: "thread_step t s =
          s\<lparr>mutex := Some t, threads := (threads s)[t := (threads s ! t)\<lparr>at := Locked u\<rparr>]\<rparr>"
        using True Created free by (simp add: thread_step_def)
      show ?thesis
        unfolding step queue_invariant_def
        using len tags sub t seqs [OF t] excl [OF t] Created free
        by (auto simp add: nth_list_update seqs excl)
    qed
  next
    case (Locked u)
    have step: "thread_step t s =
        s\<lparr>shared := link_update u (shared s), linked_by := linked_by s @ [t],
          threads := (threads s)[t := (threads s ! t)\<lparr>at := Linked\<rparr>]\<rparr>"
      using True Locked by (simp add: thread_step_def)
    from excl [OF t] Locked have held: "mutex s = Some t"
      by simp
    show ?thesis
      unfolding step queue_invariant_def
      using len tags sub t seqs [OF t] Locked held holder
      by (auto simp add: nth_list_update seqs excl linked_of_link update_queue_link)
  next
    case Linked
    have step: "thread_step t s =
        s\<lparr>mutex := None, threads := (threads s)[t := (threads s ! t)\<lparr>at := Idle\<rparr>]\<rparr>"
      using True Linked by (simp add: thread_step_def)
    from excl [OF t] Linked have held: "mutex s = Some t"
      by simp
    show ?thesis
      unfolding step queue_invariant_def
      using len tags sub t seqs [OF t] Linked held excl
      by (auto simp add: nth_list_update seqs)
  qed
qed

lemma queue_invariant_run:
  "queue_invariant calls s \<Longrightarrow> queue_invariant calls (run_schedule schedule s)"
  unfolding run_schedule_def
  by (induction schedule arbitrary: s) (simp_all add: queue_invariant_step)

text \<open>
  Two threads are never between lock and unlock at the same time.
\<close>

lemma critical_sections_exclusive:
  assumes "update_queue app = []"
    and "t < length calls" and "t' < length calls"
    and "in_critical_section (at (threads (run_schedule schedule (start_threads app calls)) ! t))"
    and "in_critical_section (at (threads (run_schedule schedule (start_threads app calls)) ! t'))"
  shows "t = t'"
proof -
  from queue_invariant_run [OF queue_invariant_start [OF assms(1)], of calls schedule]
  have "\<And>t. t < length calls \<Longrightarrow>
      in_critical_section (at (threads (run_schedule schedule (start_threads app calls)) ! t))
        \<longleftrightarrow> mutex (run_schedule schedule (start_threads app calls)) = Some t"
    by (simp add: queue_invariant_def)
  from this [OF assms(2)] this [OF assms(3)] assms(4,5) show ?thesis by simp
qed

text \<open>
  The four turns of a call that no other thread interrupts do to the store what
  \<open>queue_message_update\<close> does, and leave the mutex free.
\<close>

lemma call_runs_alone:
  assumes "t < length (threads s)" and "mutex s = None"
    and "threads s ! t = \<lparr>pending = (msg, c, st, tools) # rest, at = Idle\<rparr>"
  shows "shared (run_schedule [t, t, t, t] s) = queue_message_update msg c st tools (shared s)
         \<and> mutex (run_schedule [t, t, t, t] s) = None
         \<and> threads (run_schedule [t, t, t, t] s) = (threads s)[t := \<lparr>pending = rest, at = Idle\<rparr>]"
  using assms
  by (simp add: run_schedule_def thread_step_def queue_message_update_link create_call_def)

text \<open>
  For any calls there is a schedule after which every thread has returned.
\<close>

lemma run_schedule_append:
  "run_schedule (xs @ ys) s = run_schedule ys (run_schedule xs s)"
  by (simp add: run_schedule_def)

lemma thread_runs_alone:
  assumes "t < length (threads s)" and "mutex s = None"
    and "threads s ! t = \<lparr>pending = cs, at = Idle\<rparr>"
  shows "mutex (run_schedule (replicate (4 * length cs) t) s) = None
         \<and> threads (run_schedule (replicate (4 * length cs) t) s)
             = (threads s)[t := \<lparr>pending = [], at = Idle\<rparr>]"
  using assms
proof (induction cs arbitrary: s)
  case Nil
  then show ?case
    by (simp add: run_schedule_def) (metis list_update_id)
next
  case (Cons c cs)
  define s4 where "s4 = thread_step t (thread_step t (thread_step t (thread_step t s)))"
  have s4: "mutex s4 = None" "threads s4 = (threads s)[t := \<lparr>pending = cs, at = Idle\<rparr>]"
    using Cons.prems unfolding s4_def by (simp_all add: thread_step_def)
  have "replicate (4 * length (c # cs)) t = [t, t, t, t] @ replicate (4 * length cs) t"
    by (simp add: replicate_add) (simp add: numeral_eq_Suc)
  then have run: "run_schedule (replicate (4 * length (c # cs)) t) s
             = run_schedule (replicate (4 * length cs) t) s4"
    by (simp only: run_schedule_append) (simp add: run_schedule_def s4_def)
  from Cons.prems s4 have "t < length (threads s4)" "threads s4 ! t = \<lparr>pending = cs, at = Idle\<rparr>"
    by simp_all
  from Cons.IH [OF this(1) s4(1) this(2)] show ?case
    unfolding run by (simp add: s4)
qed

lemma sequential_prefix:
  "k \<le> length calls \<Longrightarrow>
     mutex (run_schedule
              (concat (map (\<lambda>t. replicate (4 * length (calls ! t)) t) [0..<k]))
              (start_threads app calls)) = None
     \<and> threads (run_schedule
              (concat (map (\<lambda>t. replicate (4 * length (calls ! t)) t) [0..<k]))
              (start_threads app calls))
         = map (\<lambda>i. if i < k then \<lparr>pending = [], at = Idle\<rparr>
                     else \<lparr>pending = calls ! i, at = Idle\<rparr>) [0..<length calls]"
proof (induction k)
  case 0
  have "map (\<lambda>cs. \<lparr>pending = cs, at = Idle\<rparr>) calls
          = map (\<lambda>i. \<lparr>pending = calls ! i, at = Idle\<rparr>) [0..<length calls]"
    by (rule nth_equalityI) simp_all
  then show ?case
    by (simp add: run_schedule_def start_threads_def)
next
  case (Suc k)
  define s where "s = run_schedule
                (concat (map (\<lambda>t. replicate (4 * length (calls ! t)) t) [0..<k]))
                (start_threads app calls)"
  from Suc have s: "mutex s = None"
    "threads s = map (\<lambda>i. if i < k then \<lparr>pending = [], at = Idle\<rparr>
                                  else \<lparr>pending = calls ! i, at = Idle\<rparr>) [0..<length calls]"
    by (simp_all add: s_def)
  from Suc.prems s have k: "k < length (threads s)"
    "threads s ! k = \<lparr>pending = calls ! k, at = Idle\<rparr>"
    by simp_all
  define s' where "s' = run_schedule (replicate (4 * length (calls ! k)) k) s"
  from thread_runs_alone [OF k(1) s(1) k(2)]
  have s': "mutex s' = None" "threads s' = (threads s)[k := \<lparr>pending = [], at = Idle\<rparr>]"
    by (simp_all add: s'_def)
  have run: "run_schedule
              (concat (map (\<lambda>t. replicate (4 * length (calls ! t)) t) [0..<Suc k]))
              (start_threads app calls) = s'"
    by (simp add: run_schedule_append s_def s'_def)
  have "threads s' = map (\<lambda>i. if i < Suc k then \<lparr>pending = [], at = Idle\<rparr>
                                  else \<lparr>pending = calls ! i, at = Idle\<rparr>) [0..<length calls]"
    unfolding s'(2) s(2)
    by (rule nth_equalityI) (auto simp add: nth_list_update less_Suc_eq)
  with s'(1) show ?case unfolding run by simp
qed

lemma sequential_schedule_returns:
  "all_returned (run_schedule (sequential_schedule calls) (start_threads app calls))"
  using sequential_prefix [of "length calls" calls app]
  by (simp add: sequential_schedule_def all_returned_def list_all_length)

lemma length_filter_zip:
  "length xs = length ys \<Longrightarrow>
     length (filter (\<lambda>(p, u). P p) (zip xs ys)) = length (filter P xs)"
  by (induction xs ys rule: list_induct2) simp_all

lemma length_linked_of:
  "length (linked_by s) = length (update_queue (shared s)) \<Longrightarrow>
     length (linked_of t s) = length (filter (\<lambda>p. p = t) (linked_by s))"
  by (simp add: linked_of_def length_filter_zip)

lemma length_by_owner:
  "set xs \<subseteq> {..<n::nat} \<Longrightarrow> length xs = (\<Sum>t<n. length (filter (\<lambda>p. p = t) xs))"
proof (induction xs)
  case Nil
  then show ?case by simp
next
  case (Cons x xs)
  then have x: "x < n" and IH: "length xs = (\<Sum>t<n. length (filter (\<lambda>p. p = t) xs))"
    by simp_all
  have "(\<Sum>t<n. length (filter (\<lambda>p. p = t) (x # xs)))
        = (\<Sum>t<n. (if x = t then 1 else 0) + length (filter (\<lambda>p. p = t) xs))"
    by (intro sum.cong) simp_all
  also have "\<dots> = (\<Sum>t<n. if x = t then 1 else 0) + (\<Sum>t<n. length (filter (\<lambda>p. p = t) xs))"
    by (simp add: sum.distrib)
  also have "(\<Sum>t<n. if x = t then 1 else (0::nat)) = 1"
    using x sum.delta' [of "{..<n}" x "\<lambda>t. 1::nat"] by simp
  finally show ?case using IH by simp
qed

lemma sum_lengths: "(\<Sum>t<length xss. length (xss ! t)) = sum_list (map length xss)"
proof -
  have "map (\<lambda>t. length (xss ! t)) [0..<length xss]
          = map length (map ((!) xss) [0..<length xss])"
    by (simp only: map_map comp_def)
  also have "\<dots> = map length xss"
    by (simp only: map_nth)
  finally have "sum_list (map length xss)
                  = sum_list (map (\<lambda>t. length (xss ! t)) [0..<length xss])"
    by simp
  also have "\<dots> = (\<Sum>t<length xss. length (xss ! t))"
    by (simp add: interv_sum_list_conv_sum_set_nat lessThan_atLeast0)
  finally show ?thesis by simp
qed

text \<open>
  Claim C4.  Any number of threads call \<open>queue_message_update\<close> concurrently, thread \<open>t\<close>
  making the calls \<open>calls ! t\<close> in this order, on a queue that is empty when they start;
  allocation is taken to succeed.  Whatever the schedule, once every thread has returned
  from its last call the mutex is free, so that \<open>process_message_updates\<close> on the consumer
  thread can lock it, and the list it detaches holds exactly as many updates as calls were
  made (1000 for 1000 calls made by 8 threads).  Every update has been linked by one of the
  threads, and the updates linked by thread \<open>t\<close> are, in the order of the detached list,
  exactly the updates of its calls in the order of the calls: none is lost, none is
  duplicated, and their relative order is kept.
\<close>

theorem concurrent_enqueue_no_loss:
  assumes empty: "update_queue app = []"
    and returned: "all_returned (run_schedule schedule (start_threads app calls))"
  shows "(let s = run_schedule schedule (start_threads app calls);
              drained = fst (detach_updates (shared s))
          in mutex s = None
             \<and> length drained = sum_list (map length calls)
             \<and> length (linked_by s) = length drained
             \<and> set (linked_by s) \<subseteq> {..<length calls}
             \<and> (\<forall>t<length calls.
                   map snd (filter (\<lambda>(p, u). p = t) (zip (linked_by s) drained))
                     = map create_call (calls ! t)))"
proof -
  define s where "s = run_schedule schedule (start_threads app calls)"
  have inv: "queue_invariant calls s"
    unfolding s_def by (rule queue_invariant_run [OF queue_invariant_start [OF empty]])
  from inv have len: "length (threads s) = length calls"
    and tags: "length (linked_by s) = length (update_queue (shared s))"
    and sub: "set (linked_by s) \<subseteq> {..<length calls}"
    and seqs: "\<And>t. t < length calls \<Longrightarrow>
           linked_of t s @ in_flight (at (threads s ! t))
             @ map create_call (pending (threads s ! t)) = map create_call (calls ! t)"
    and excl: "\<And>t. t < length calls \<Longrightarrow>
           in_critical_section (at (threads s ! t)) \<longleftrightarrow> mutex s = Some t"
    and holder: "\<And>h. mutex s = Some h \<Longrightarrow> h < length calls"
    by (simp_all add: queue_invariant_def)
  from returned have idle: "\<And>t. t < length calls \<Longrightarrow>
      pending (threads s ! t) = [] \<and> at (threads s ! t) = Idle"
    by (simp add: all_returned_def s_def [symmetric] list_all_length len)
  have free: "mutex s = None"
  proof (cases "mutex s")
    case None
    then show ?thesis .
  next
    case (Some h)
    from holder [OF Some] have "h < length calls" .
    from excl [OF this] idle [OF this] Some show ?thesis by simp
  qed
  have proj: "linked_of t s = map create_call (calls ! t)" if "t < length calls" for t
    using seqs [OF that] idle [OF that] by simp
  have "length (update_queue (shared s)) = length (linked_by s)"
    using tags by simp
  also have "\<dots> = (\<Sum>t<length calls. length (filter (\<lambda>p. p = t) (linked_by s)))"
    by (rule length_by_owner [OF sub])
  also have "\<dots> = (\<Sum>t<length calls. length (calls ! t))"
    by (intro sum.cong refl) (simp add: length_linked_of [OF tags, symmetric] proj)
  also have "\<dots> = sum_list (map length calls)"
    by (rule sum_lengths)
  finally have total: "length (update_queue (shared s)) = sum_list (map length calls)" .
  from free total tags sub proj show ?thesis
    unfolding s_def [symmetric] Let_def
    by (simp add: detach_updates_def linked_of_def)
qed

theorem concurrent_enqueue_no_loss_witness:
  "update_queue init_app = []
   \<and> all_returned (run_schedule demo_schedule (start_threads init_app demo_calls))
   \<and> mutex (run_schedule demo_schedule (start_threads init_app demo_calls)) = None
   \<and> linked_by (run_schedule demo_schedule (start_threads init_app demo_calls)) = [0, 1, 0]
   \<and> map new_content
        (fst (detach_updates
                (shared (run_schedule demo_schedule (start_threads init_app demo_calls)))))
       = [Some ''a1'', Some ''b1'', Some ''a2'']
   \<and> length (fst (detach_updates
                (shared (run_schedule demo_schedule (start_threads init_app demo_calls)))))
       = sum_list (map length demo_calls)"
proof -
  have empty: "update_queue init_app = []"
    by (simp add: init_app_def)
  have returned: "all_returned (run_schedule demo_schedule (start_threads init_app demo_calls))"
    by code_simp
  have tags: "linked_by (run_schedule demo_schedule (start_threads init_app demo_calls)) = [0, 1, 0]"
    by code_simp
  have contents: "map new_content
        (fst (detach_updates
                (shared (run_schedule demo_schedule (start_threads init_app demo_calls)))))
       = [Some ''a1'', Some ''b1'', Some ''a2'']"
    by code_simp
  from concurrent_enqueue_no_loss [OF empty returned] empty returned tags contents
  show ?thesis by (simp add: Let_def)
qed

section \<open>Properties of the line wrapper\<close>












lemma wrap_abcdefg_5:
  "wrap_text_to_lines tb_utf8_char_to_unicode (Some ''abcdefg'') 5 = [''abcde'', ''fg'']"
  by code_simp

lemma count_abcde: "codepoint_count tb_utf8_char_to_unicode ''abcde'' = 5"
  by code_simp

lemma wrap_hello_10:
  "wrap_text_to_lines tb_utf8_char_to_unicode (Some ''hello world, this is text'') 10
     = [''hello '', ''world, '', ''this is '', ''text'']"
  by code_simp

lemma count_hello:
  "codepoint_count tb_utf8_char_to_unicode ''hello '' = 6"
  "codepoint_count tb_utf8_char_to_unicode ''world, '' = 7"
  "codepoint_count tb_utf8_char_to_unicode ''this is '' = 8"
  "codepoint_count tb_utf8_char_to_unicode ''text'' = 4"
  by code_simp+




text \<open>
  Claim C10.  For a requested width from 1 to 4 \<open>wrap_text_to_lines\<close> returns what it returns
  for width 5, whatever the text and the decoder; and a line of five codepoints does come
  out at such a width.
\<close>

theorem narrow_width_is_five:
  assumes "1 \<le> w" and "w \<le> 4"
  shows "wrap_text_to_lines dec t w = wrap_text_to_lines dec t 5
       \<and> (\<exists>l \<in> set (wrap_text_to_lines tb_utf8_char_to_unicode (Some ''abcdefg'') w).
             codepoint_count tb_utf8_char_to_unicode l = 5)"
proof -
  have eq: "wrap_text_to_lines d x w = wrap_text_to_lines d x 5" for d x
    using assms by (cases x) (simp_all add: wrap_text_to_lines_def)
  show ?thesis
    by (simp add: eq wrap_abcdefg_5 count_abcde)
qed

theorem narrow_width_is_five_witness:
  "(1::int) \<le> 3 \<and> (3::int) \<le> 4
   \<and> wrap_text_to_lines tb_utf8_char_to_unicode (Some ''abcdefg'') 3 = [''abcde'', ''fg'']"
  using narrow_width_is_five [of 3 tb_utf8_char_to_unicode "Some ''abcdefg''"]
  by (simp add: wrap_abcdefg_5)

section \<open>Properties of the line renderer\<close>





section \<open>Properties of the markdown renderer\<close>

text \<open>
  Claim C9.  The parser's calls for the table with the rows \<open>a\<close>, \<open>bbbb\<close> and \<open>cc\<close>, \<open>d\<close>
  are run on a fresh renderer, for either value of the colour and the compact flag.  Before
  the call that closes the table block no column has been measured and no part of the
  table has been emitted.  The closing call computes the column widths 2 and 4 (and two
  columns), and emits the grid: the top border, the header row, the header separator, the
  body row and the bottom border.  Each border consists of box-drawing glyphs, with
  \<open>2 + 2\<close> horizontal glyphs over the first column and \<open>4 + 2\<close> over the second; the cells
  are padded on the right to the width of their column.
\<close>

theorem table_widths_and_borders:
  "table_view (run_events demo_table (md_ansi_init nc cp)) =
     Inr ([0, 0, 0], 0, if cp then [] else [CHR 0x0A])
   \<and> table_view (run_events (demo_table @ [Leave MD_BLOCK_TABLE]) (md_ansi_init nc cp)) =
     (let c = (if nc then [] else ANSI_BRIGHT_BLACK);
          z = (if nc then [] else ANSI_RESET);
          nl = [CHR 0x0A];
          gap = (if cp then [] else nl);
          border = (\<lambda>left junction right.
                      c @ left @ concat (replicate (2 + 2) BOX_H) @ junction
                        @ concat (replicate (4 + 2) BOX_H) @ right @ z @ nl);
          bar = c @ BOX_V @ z;
          row = (\<lambda>a b. bar @ '' '' @ a @ '' '' @ bar @ '' '' @ b @ '' '' @ bar @ nl)
      in Inr ([2, 4, 0], 2,
              gap @ border BOX_TL BOX_T_DOWN BOX_TR
                  @ row ''a '' ''bbbb''
                  @ border BOX_T_RIGHT BOX_CROSS BOX_T_LEFT
                  @ row ''cc'' ''d   ''
                  @ border BOX_BL BOX_T_UP BOX_BR @ gap))"
  (is "?P nc cp")
proof -
  have "\<forall>a b. ?P a b" by code_simp
  then show ?thesis by blast
qed

text \<open>
  The lexer state is cleared when a code block is entered and when it is left.
\<close>

lemma lexer_reset_on_enter:
  "in_string (enter_block_callback (MD_BLOCK_CODE lang) r) = 0
   \<and> in_comment (enter_block_callback (MD_BLOCK_CODE lang) r) = 0
   \<and> \<not> string_escape_next (enter_block_callback (MD_BLOCK_CODE lang) r)"
  by (simp add: Let_def)

lemma render_newline_lexer:
  "in_string (render_newline r) = in_string r"
  "in_comment (render_newline r) = in_comment r"
  "string_escape_next (render_newline r) = string_escape_next r"
  by (simp_all add: render_newline_def render_verbatim_def)

lemma lexer_reset_on_leave:
  "leave_block_callback (MD_BLOCK_CODE lang) r = Inr r'
   \<Longrightarrow> in_string r' = 0 \<and> in_comment r' = 0 \<and> \<not> string_escape_next r'"
proof -
  assume left: "leave_block_callback (MD_BLOCK_CODE lang) r = Inr r'"
  have "in_string (projr (leave_block_callback (MD_BLOCK_CODE lang) r)) = 0
        \<and> in_comment (projr (leave_block_callback (MD_BLOCK_CODE lang) r)) = 0
        \<and> \<not> string_escape_next (projr (leave_block_callback (MD_BLOCK_CODE lang) r))"
    by (simp add: Let_def render_newline_lexer)
  then show ?thesis unfolding left by simp
qed

text \<open>
  Claim C7.  In a code block of a coloured renderer the string literal \<open>"a\"b"\<close>, which
  contains an escaped quote, is delivered in one piece, and in two pieces split before and
  after the backslash.  The four results are the lexer state (\<open>in_string\<close>, \<open>in_comment\<close>,
  \<open>string_escape_next\<close>) and the whole output.  In one piece, and split before the
  backslash, the literal is one string token: the string colour, the literal, the reset,
  and no string is open afterwards.  Split after the backslash, the first delivery leaves
  the string open with the escape flag cleared (and emits the terminating NUL of its chunk
  after the backslash); the second delivery then takes the escaped quote for the closing
  quote: it emits the reset right after it, renders \<open>b\<close> as an identifier outside of any
  string, and opens a new string at the last quote, which is still open at the end.
\<close>

theorem escaped_quote_at_chunk_boundary:
  "(let q = CHR 0x22; bs = CHR 0x5C; enter = Enter (MD_BLOCK_CODE None);
        code = Text MD_TEXT_CODE; r = md_ansi_init False False
    in lexer_view (run_events [enter, code [q, CHR ''a'', bs, q, CHR ''b'', q]] r) =
         Inr (0, 0, False,
              code_frame @ ANSI_GREEN @ [q, CHR ''a'', bs, q, CHR ''b'', q] @ ANSI_RESET)
       \<and> lexer_view (run_events [enter, code [q, CHR ''a''], code [bs, q, CHR ''b'', q]] r) =
         Inr (0, 0, False,
              code_frame @ ANSI_GREEN @ [q, CHR ''a'', bs, q, CHR ''b'', q] @ ANSI_RESET)
       \<and> lexer_view (run_events [enter, code [q, CHR ''a'', bs]] r) =
         Inr (34, 0, False, code_frame @ ANSI_GREEN @ [q, CHR ''a'', bs, CHR 0x00])
       \<and> lexer_view (run_events [enter, code [q, CHR ''a'', bs], code [q, CHR ''b'', q]] r) =
         Inr (34, 0, False,
              code_frame @ ANSI_GREEN @ [q, CHR ''a'', bs, CHR 0x00]
                @ [q] @ ANSI_RESET @ [CHR ''b''] @ ANSI_GREEN @ [q]))"
  by code_simp

end
